theory Spec2Isabelle
  imports Complex_Main "HOL-Library.Log_Nat"
begin

section \<open>JavaScript numbers\<close>

text \<open>
  The service computes with JavaScript numbers, that is IEEE 754 binary64 values. A
  number is modelled as a rational (the finite doubles are rationals), the two
  infinities, or NaN. Every arithmetic operation computes the exact rational result and
  rounds it to the nearest binary64 value, ties to even, overflowing to an infinity:
  this is \<open>fl\<close>. The two zeros are identified (\<open>Fin 0\<close>); the service compares numbers
  and never divides by a zero, so it cannot tell them apart.
\<close>

datatype number = Fin rat | PInf | NInf | NaN

text \<open>The binade of a positive rational: the integer \<open>e\<close> with \<open>2^e \<le> q < 2^(e+1)\<close>.\<close>

definition ilog2 :: "rat \<Rightarrow> int" where
  "ilog2 q = (let e = bitlen (fst (quotient_of q)) - bitlen (snd (quotient_of q))
              in if 2 powi e \<le> q then e else e - 1)"

text \<open>Rounding a rational to the nearest integer, ties to the even one.\<close>

definition rne :: "rat \<Rightarrow> int" where
  "rne x = (let f = \<lfloor>x\<rfloor>; d = x - of_int f
            in if d < 1 / 2 then f else if 1 / 2 < d then f + 1
               else if even f then f else f + 1)"

text \<open>
  The spacing of the doubles around a positive rational: 53 significant bits, and the
  subnormal spacing \<open>2^-1074\<close> below \<open>2^-1022\<close>.
\<close>

definition ulp :: "rat \<Rightarrow> rat" where
  "ulp q = 2 powi (max (ilog2 q) (- 1022) - 52)"

definition rpos :: "rat \<Rightarrow> rat" where
  "rpos q = of_int (rne (q / ulp q)) * ulp q"

definition fl_pos :: "rat \<Rightarrow> number" where
  "fl_pos q = (if 2 ^ 1024 \<le> rpos q then PInf else Fin (rpos q))"

fun num_neg :: "number \<Rightarrow> number" where
  "num_neg (Fin q) = Fin (- q)"
| "num_neg PInf = NInf"
| "num_neg NInf = PInf"
| "num_neg NaN = NaN"

definition fl :: "rat \<Rightarrow> number" where
  "fl q = (if q = 0 then Fin 0 else if 0 < q then fl_pos q else num_neg (fl_pos (- q)))"

text \<open>A rational is a double when rounding leaves it alone.\<close>

definition is_double :: "rat \<Rightarrow> bool" where
  "is_double q = (fl q = Fin q)"

fun double_number :: "number \<Rightarrow> bool" where
  "double_number (Fin q) = is_double q"
| "double_number _ = True"

text \<open>The sign of a number, and the infinity (or NaN) of a sign.\<close>

fun num_sign :: "number \<Rightarrow> int" where
  "num_sign (Fin q) = (if 0 < q then 1 else if q < 0 then - 1 else 0)"
| "num_sign PInf = 1"
| "num_sign NInf = - 1"
| "num_sign NaN = 0"

definition signed_inf :: "int \<Rightarrow> number" where
  "signed_inf s = (if 0 < s then PInf else if s < 0 then NInf else NaN)"

text \<open>\<open>x + y\<close>\<close>

fun num_add :: "number \<Rightarrow> number \<Rightarrow> number" where
  "num_add (Fin a) (Fin b) = fl (a + b)"
| "num_add NaN _ = NaN"
| "num_add _ NaN = NaN"
| "num_add PInf NInf = NaN"
| "num_add NInf PInf = NaN"
| "num_add PInf _ = PInf"
| "num_add _ PInf = PInf"
| "num_add NInf _ = NInf"
| "num_add _ NInf = NInf"

text \<open>\<open>x * y\<close>: an infinity times zero is NaN.\<close>

fun num_mul :: "number \<Rightarrow> number \<Rightarrow> number" where
  "num_mul (Fin a) (Fin b) = fl (a * b)"
| "num_mul NaN _ = NaN"
| "num_mul _ NaN = NaN"
| "num_mul x y = signed_inf (num_sign x * num_sign y)"

text \<open>\<open>x / y\<close>; the zero divisor is taken as \<open>+0\<close>.\<close>

fun num_div :: "number \<Rightarrow> number \<Rightarrow> number" where
  "num_div (Fin a) (Fin b) = (if b = 0 then signed_inf (num_sign (Fin a)) else fl (a / b))"
| "num_div NaN _ = NaN"
| "num_div _ NaN = NaN"
| "num_div (Fin a) _ = Fin 0"
| "num_div x (Fin b) = signed_inf (num_sign x * (if b < 0 then - 1 else 1))"
| "num_div _ _ = NaN"

text \<open>\<open>x < y\<close> and \<open>x <= y\<close>: false whenever an operand is NaN.\<close>

fun num_less :: "number \<Rightarrow> number \<Rightarrow> bool" where
  "num_less (Fin a) (Fin b) = (a < b)"
| "num_less NaN _ = False"
| "num_less _ NaN = False"
| "num_less PInf _ = False"
| "num_less _ PInf = True"
| "num_less _ NInf = False"
| "num_less NInf _ = True"

fun num_le :: "number \<Rightarrow> number \<Rightarrow> bool" where
  "num_le (Fin a) (Fin b) = (a \<le> b)"
| "num_le NaN _ = False"
| "num_le _ NaN = False"
| "num_le _ PInf = True"
| "num_le NInf _ = True"
| "num_le _ _ = False"

text \<open>\<open>Number.isFinite(x)\<close>\<close>

fun Number_isFinite :: "number \<Rightarrow> bool" where
  "Number_isFinite (Fin q) = True"
| "Number_isFinite _ = False"

text \<open>
  \<open>Math.round(x)\<close>: the integer nearest to \<open>x\<close>, the one closer to \<open>+\<infinity>\<close> on a tie,
  that is \<open>floor(x + 1/2)\<close>; infinities and NaN are returned unchanged.
\<close>

fun Math_round :: "number \<Rightarrow> number" where
  "Math_round (Fin q) = Fin (of_int \<lfloor>q + 1 / 2\<rfloor>)"
| "Math_round x = x"

section \<open>Values, property reads and exceptions\<close>

text \<open>
  Reading a property of \<open>null\<close> or \<open>undefined\<close> throws a TypeError; an array element is
  an object (\<open>Some\<close>) or \<open>null\<close>/\<open>undefined\<close> (\<open>None\<close>).
\<close>

datatype error = TypeError

fun get_prop :: "('a \<Rightarrow> 'b) \<Rightarrow> 'a option \<Rightarrow> error + 'b" where
  "get_prop field None = Inl TypeError"
| "get_prop field (Some obj) = Inr (field obj)"

definition bind :: "error + 'a \<Rightarrow> ('a \<Rightarrow> error + 'b) \<Rightarrow> error + 'b" where
  "bind m f = (case m of Inl e \<Rightarrow> Inl e | Inr x \<Rightarrow> f x)"

text \<open>\<open>Array.prototype.reduce\<close> with an initial value; an exception in the callback ends it.\<close>

fun reduce :: "('b \<Rightarrow> 'a \<Rightarrow> error + 'b) \<Rightarrow> 'b \<Rightarrow> 'a list \<Rightarrow> error + 'b" where
  "reduce f acc [] = Inr acc"
| "reduce f acc (x # xs) = bind (f acc x) (\<lambda>acc'. reduce f acc' xs)"

text \<open>
  What a property read on the object literal \<open>GRADE_POINTS\<close> can give: \<open>undefined\<close>, a
  number (an own property), or a function or object found on \<open>Object.prototype\<close>.
\<close>

datatype jsvalue = Undefined | Num number | Inherited

text \<open>\<open>v ?? d\<close>\<close>

fun nullish :: "jsvalue \<Rightarrow> jsvalue \<Rightarrow> jsvalue" where
  "nullish Undefined d = d"
| "nullish v d = v"

text \<open>The conversion of an operand of \<open>*\<close> to a number: a function or a plain object gives NaN.\<close>

fun ToNumber :: "jsvalue \<Rightarrow> number" where
  "ToNumber (Num x) = x"
| "ToNumber Undefined = NaN"
| "ToNumber Inherited = NaN"

section \<open>The data model\<close>

record Course =
  name :: "string option"
  creditHours :: number
  grade :: string

record SemesterSummary =
  name :: string
  gpa :: number
  creditHours :: number

record GpaResult =
  gpa :: number
  totalCreditHours :: number

record CgpaResult =
  cgpa :: "number option"
  totalCreditHours :: number

text \<open>The own properties of \<open>GRADE_POINTS\<close>, in the order of the literal.\<close>

definition GRADE_POINTS :: "(string \<times> number) list" where
  "GRADE_POINTS =
     [(''A'', Fin 4), (''A-'', Fin (375 / 100)), (''B+'', Fin (35 / 10)), (''B'', Fin 3),
      (''C+'', Fin (25 / 10)), (''C'', Fin 2), (''D+'', Fin (15 / 10)), (''D'', Fin 1),
      (''F'', Fin 0)]"

text \<open>
  \<open>GRADE_POINTS\<close> is an object literal, so its prototype is \<open>Object.prototype\<close> and a read
  of one of these names finds the inherited member.
\<close>

definition Object_prototype :: "string list" where
  "Object_prototype =
     [''constructor'', ''hasOwnProperty'', ''isPrototypeOf'', ''propertyIsEnumerable'',
      ''toLocaleString'', ''toString'', ''valueOf'', ''__proto__'', ''__defineGetter__'',
      ''__defineSetter__'', ''__lookupGetter__'', ''__lookupSetter__'']"

text \<open>\<open>GRADE_POINTS[g]\<close>\<close>

definition GRADE_POINTS_get :: "string \<Rightarrow> jsvalue" where
  "GRADE_POINTS_get g =
     (case map_of GRADE_POINTS g of
        Some p \<Rightarrow> Num p
      | None \<Rightarrow> if g \<in> set Object_prototype then Inherited else Undefined)"

section \<open>The service\<close>

definition roundToTwo :: "number \<Rightarrow> number" where
  "roundToTwo v = num_div (Math_round (num_mul v (Fin 100))) (Fin 100)"

text \<open>The callback of \<open>courses.filter\<close>: \<open>c &&\<close> guards the property reads.\<close>

fun validCourse :: "Course option \<Rightarrow> bool" where
  "validCourse None = False"
| "validCourse (Some c) =
     (Number_isFinite (Course.creditHours c) \<and>
      num_less (Fin 0) (Course.creditHours c) \<and>
      GRADE_POINTS_get (grade c) \<noteq> Undefined)"

definition calculateGpa :: "Course option list \<Rightarrow> error + GpaResult" where
  "calculateGpa courses =
     (let validCourses = filter validCourse courses
      in bind (reduce (\<lambda>sum c. bind (get_prop Course.creditHours c) (\<lambda>h. Inr (num_add sum h)))
                (Fin 0) validCourses)
          (\<lambda>totalCreditHours.
            if num_le totalCreditHours (Fin 0) \<or> \<not> Number_isFinite totalCreditHours
            then Inr \<lparr>GpaResult.gpa = Fin 0, totalCreditHours = Fin 0\<rparr>
            else bind (reduce (\<lambda>sum c.
                          bind (get_prop grade c) (\<lambda>g.
                            let gradePoints = nullish (GRADE_POINTS_get g) (Num (Fin 0))
                            in bind (get_prop Course.creditHours c) (\<lambda>h.
                                 Inr (num_add sum (num_mul h (ToNumber gradePoints))))))
                        (Fin 0) validCourses)
                  (\<lambda>totalPoints.
                    let rawGpa = num_div totalPoints totalCreditHours;
                        gpa = (if Number_isFinite rawGpa then roundToTwo rawGpa else Fin 0)
                    in Inr \<lparr>GpaResult.gpa = gpa, totalCreditHours = totalCreditHours\<rparr>)))"

text \<open>The callback of \<open>semesters.filter\<close>.\<close>

fun validSemester :: "SemesterSummary option \<Rightarrow> bool" where
  "validSemester None = False"
| "validSemester (Some s) =
     (Number_isFinite (SemesterSummary.gpa s) \<and>
      num_le (Fin 0) (SemesterSummary.gpa s) \<and>
      num_le (SemesterSummary.gpa s) (Fin 4) \<and>
      Number_isFinite (SemesterSummary.creditHours s) \<and>
      num_less (Fin 0) (SemesterSummary.creditHours s))"

definition calculateCgpa :: "SemesterSummary option list \<Rightarrow> error + CgpaResult" where
  "calculateCgpa semesters =
     (let validSemesters = filter validSemester semesters
      in if length validSemesters = 0
         then Inr \<lparr>cgpa = None, totalCreditHours = Fin 0\<rparr>
         else bind (reduce (\<lambda>sum s. bind (get_prop SemesterSummary.creditHours s)
                                      (\<lambda>h. Inr (num_add sum h)))
                     (Fin 0) validSemesters)
               (\<lambda>totalCreditHours.
                 if num_le totalCreditHours (Fin 0) \<or> \<not> Number_isFinite totalCreditHours
                 then Inr \<lparr>cgpa = None, totalCreditHours = Fin 0\<rparr>
                 else bind (reduce (\<lambda>sum s.
                               bind (get_prop SemesterSummary.gpa s) (\<lambda>g.
                                 bind (get_prop SemesterSummary.creditHours s) (\<lambda>h.
                                   Inr (num_add sum (num_mul g h)))))
                             (Fin 0) validSemesters)
                       (\<lambda>totalWeightedPoints.
                         let rawCgpa = num_div totalWeightedPoints totalCreditHours;
                             cgpa = (if Number_isFinite rawCgpa then roundToTwo rawCgpa
                                     else Fin 0)
                         in Inr \<lparr>cgpa = Some cgpa, totalCreditHours = totalCreditHours\<rparr>)))"

definition getGradeOptions :: "string list" where
  "getGradeOptions = [''A'', ''A-'', ''B+'', ''B'', ''C+'', ''C'', ''D+'', ''D'', ''F'']"

definition getAllowedCreditHours :: "number list" where
  "getAllowedCreditHours = [Fin 1, Fin 2, Fin 3, Fin 4]"

section \<open>The specification's words\<close>

text \<open>\<open>pointsFor(grade)\<close>: the points of a letter of the table, or not found.\<close>

definition pointsFor :: "string \<Rightarrow> number option" where
  "pointsFor g = map_of GRADE_POINTS g"

text \<open>
  A course of the valid subset, in the specification's words: finite, strictly positive
  credit hours and a grade that is a key of the table.
\<close>

definition valid_course :: "Course \<Rightarrow> bool" where
  "valid_course c =
     (Number_isFinite (Course.creditHours c) \<and> num_less (Fin 0) (Course.creditHours c) \<and>
      pointsFor (grade c) \<noteq> None)"

text \<open>A term of the valid subset: a finite gpa in [0, 4] and finite, strictly positive credit hours.\<close>

definition valid_term :: "SemesterSummary \<Rightarrow> bool" where
  "valid_term s =
     (Number_isFinite (SemesterSummary.gpa s) \<and> num_le (Fin 0) (SemesterSummary.gpa s) \<and>
      num_le (SemesterSummary.gpa s) (Fin 4) \<and>
      Number_isFinite (SemesterSummary.creditHours s) \<and>
      num_less (Fin 0) (SemesterSummary.creditHours s))"

text \<open>The valid subset of a list of courses and of a list of terms.\<close>

definition valid_courses :: "Course option list \<Rightarrow> Course list" where
  "valid_courses es = filter valid_course (List.map_filter id es)"

definition valid_terms :: "SemesterSummary option list \<Rightarrow> SemesterSummary list" where
  "valid_terms es = filter valid_term (List.map_filter id es)"

text \<open>A sum of numbers, added left to right from 0 in double arithmetic.\<close>

definition sum_numbers :: "number list \<Rightarrow> number" where
  "sum_numbers xs = foldl num_add (Fin 0) xs"

text \<open>The points of a course's grade; NaN stands for a grade that is not found.\<close>

definition course_points :: "Course \<Rightarrow> number" where
  "course_points c = (case pointsFor (grade c) of Some p \<Rightarrow> p | None \<Rightarrow> NaN)"

text \<open>The sum of credit hours and the credit-weighted sum of grade points of courses.\<close>

definition course_hours :: "Course list \<Rightarrow> number" where
  "course_hours cs = sum_numbers (map Course.creditHours cs)"

definition course_weighted :: "Course list \<Rightarrow> number" where
  "course_weighted cs =
     sum_numbers (map (\<lambda>c. num_mul (Course.creditHours c) (course_points c)) cs)"

text \<open>The sum of credit hours and the credit-weighted sum of the gpa of terms.\<close>

definition term_hours :: "SemesterSummary list \<Rightarrow> number" where
  "term_hours ts = sum_numbers (map SemesterSummary.creditHours ts)"

definition term_weighted :: "SemesterSummary list \<Rightarrow> number" where
  "term_weighted ts =
     sum_numbers (map (\<lambda>s. num_mul (SemesterSummary.gpa s) (SemesterSummary.creditHours s)) ts)"

text \<open>Rounding to an integer with halves away from zero; infinities and NaN unchanged.\<close>

fun round_half_away :: "number \<Rightarrow> number" where
  "round_half_away (Fin q) = Fin (of_int ((if q < 0 then - 1 else 1) * \<lfloor>\<bar>q\<bar> + 1 / 2\<rfloor>))"
| "round_half_away x = x"

text \<open>The objects of the array that the filter of each calculator keeps.\<close>

definition kept_courses :: "Course option list \<Rightarrow> Course list" where
  "kept_courses es = filter (\<lambda>c. validCourse (Some c)) (List.map_filter id es)"

definition kept_semesters :: "SemesterSummary option list \<Rightarrow> SemesterSummary list" where
  "kept_semesters es = filter (\<lambda>s. validSemester (Some s)) (List.map_filter id es)"

text \<open>
  The two calculations on the kept objects, where no property read can fail: the sums
  are the folds of the two \<open>reduce\<close> calls.
\<close>

definition gpa_of :: "Course list \<Rightarrow> GpaResult" where
  "gpa_of validCourses =
     (let totalCreditHours = foldl (\<lambda>sum c. num_add sum (Course.creditHours c)) (Fin 0) validCourses
      in if num_le totalCreditHours (Fin 0) \<or> \<not> Number_isFinite totalCreditHours
         then \<lparr>GpaResult.gpa = Fin 0, totalCreditHours = Fin 0\<rparr>
         else let totalPoints =
                    foldl (\<lambda>sum c. num_add sum (num_mul (Course.creditHours c)
                             (ToNumber (nullish (GRADE_POINTS_get (grade c)) (Num (Fin 0))))))
                      (Fin 0) validCourses;
                  rawGpa = num_div totalPoints totalCreditHours;
                  gpa = (if Number_isFinite rawGpa then roundToTwo rawGpa else Fin 0)
              in \<lparr>GpaResult.gpa = gpa, totalCreditHours = totalCreditHours\<rparr>)"

definition cgpa_of :: "SemesterSummary list \<Rightarrow> CgpaResult" where
  "cgpa_of validSemesters =
     (if length validSemesters = 0 then \<lparr>cgpa = None, totalCreditHours = Fin 0\<rparr>
      else let totalCreditHours =
                 foldl (\<lambda>sum s. num_add sum (SemesterSummary.creditHours s)) (Fin 0) validSemesters
           in if num_le totalCreditHours (Fin 0) \<or> \<not> Number_isFinite totalCreditHours
              then \<lparr>cgpa = None, totalCreditHours = Fin 0\<rparr>
              else let totalWeightedPoints =
                         foldl (\<lambda>sum s. num_add sum (num_mul (SemesterSummary.gpa s)
                                  (SemesterSummary.creditHours s)))
                           (Fin 0) validSemesters;
                       rawCgpa = num_div totalWeightedPoints totalCreditHours;
                       cgpa = (if Number_isFinite rawCgpa then roundToTwo rawCgpa else Fin 0)
                   in \<lparr>cgpa = Some cgpa, totalCreditHours = totalCreditHours\<rparr>)"

text \<open>The specification's rounding: halves away from zero on \<open>value * 100\<close>, divided by 100.\<close>

definition roundToTwo_spec :: "number \<Rightarrow> number" where
  "roundToTwo_spec x = num_div (round_half_away (num_mul x (Fin 100))) (Fin 100)"

text \<open>A negative number exactly halfway between two integers.\<close>

fun negative_tie :: "number \<Rightarrow> bool" where
  "negative_tie (Fin q) = (q < 0 \<and> of_int \<lfloor>q + 1 / 2\<rfloor> = q + 1 / 2)"
| "negative_tie _ = False"

text \<open>A finite, strictly positive double.\<close>

definition pos_double :: "number \<Rightarrow> bool" where
  "pos_double x = (Number_isFinite x \<and> num_less (Fin 0) x \<and> double_number x)"

text \<open>What a sum of finite, strictly positive doubles can be: positive, or \<open>+Infinity\<close>.\<close>

definition reached :: "number \<Rightarrow> bool" where
  "reached x = (x = PInf \<or> (\<exists>a. x = Fin a \<and> 0 < a))"

text \<open>The double \<open>2^1023\<close> (about \<open>8.99e307\<close>): twice it is beyond the largest double.\<close>

definition huge :: rat where
  "huge = 2 ^ 1023"

text \<open>A multiple of \<open>2^-1074\<close>, the spacing of the smallest doubles: every double is one.\<close>

definition on_grid :: "rat \<Rightarrow> bool" where
  "on_grid q = (\<exists>m. q = of_int m * 2 powi (- 1074))"

text \<open>
  What the two running sums of \<open>calculateGpa\<close> satisfy after every course: the sum \<open>S\<close> of
  credit hours is \<open>+Infinity\<close> or a non-negative multiple of \<open>2^-1074\<close>, and the sum \<open>P\<close> of
  points is NaN, \<open>+Infinity\<close>, or non-negative and at most four times \<open>S\<close>.
\<close>

definition gpa_inv :: "number \<Rightarrow> number \<Rightarrow> bool" where
  "gpa_inv S P =
     ((S = PInf \<or> (\<exists>s. S = Fin s \<and> 0 \<le> s \<and> on_grid s)) \<and>
      (P = NaN \<or> P = PInf \<or>
       (\<exists>p. P = Fin p \<and> 0 \<le> p \<and> (S = PInf \<or> (\<exists>s. S = Fin s \<and> p \<le> 4 * s)))))"

section \<open>Rounding to binary64\<close>

subsection \<open>Powers of two and binades\<close>

lemma pow2_pos [simp]: "0 < (2::rat) powi e"
  by (simp add: power_int_def)

lemma pow2_mono: "a \<le> b \<Longrightarrow> (2::rat) powi a \<le> 2 powi b"
  by (rule power_int_increasing) simp_all

lemma pow2_strict_mono: "a < b \<Longrightarrow> (2::rat) powi a < 2 powi b"
  by (rule power_int_strict_increasing) simp_all

lemma pow2_add: "(2::rat) powi (a + b) = 2 powi a * 2 powi b"
  by (rule power_int_add) simp

lemma pow2_diff: "(2::rat) powi (a - b) = 2 powi a / 2 powi b"
  by (rule power_int_diff) simp

lemma ilog2_bounds:
  assumes "0 < q"
  shows "2 powi (ilog2 q) \<le> q" and "q < 2 powi (ilog2 q + 1)"
proof -
  obtain p d where pd: "quotient_of q = (p, d)" by (cases "quotient_of q")
  have d: "0 < d" using quotient_of_denom_pos [OF pd] .
  have q: "q = of_int p / of_int d" using quotient_of_div [OF pd] .
  have p: "0 < p" using assms d by (simp add: q zero_less_divide_iff)
  define bp where "bp = bitlen p"
  define bd where "bd = bitlen d"
  have bp1: "1 \<le> bp" and bd1: "1 \<le> bd"
    using p d bitlen_eq_zero_iff [of p] bitlen_eq_zero_iff [of d] bitlen_nonneg [of p] bitlen_nonneg [of d]
    by (auto simp: bp_def bd_def)
  have pb: "2 powi (bp - 1) \<le> (of_int p :: rat)" "(of_int p :: rat) < 2 powi bp"
  proof -
    have "(2::int) ^ nat (bp - 1) \<le> p" "p < 2 ^ nat bp"
      using bitlen_bounds [OF p] by (simp_all add: bp_def)
    then have "(of_int (2 ^ nat (bp - 1)) :: rat) \<le> of_int p" "(of_int p :: rat) < of_int (2 ^ nat bp)"
      by (simp_all only: of_int_le_iff of_int_less_iff)
    then show "2 powi (bp - 1) \<le> (of_int p :: rat)" "(of_int p :: rat) < 2 powi bp"
      using bp1 by (simp_all add: power_int_def)
  qed
  have db: "2 powi (bd - 1) \<le> (of_int d :: rat)" "(of_int d :: rat) < 2 powi bd"
  proof -
    have "(2::int) ^ nat (bd - 1) \<le> d" "d < 2 ^ nat bd"
      using bitlen_bounds [OF d] by (simp_all add: bd_def)
    then have "(of_int (2 ^ nat (bd - 1)) :: rat) \<le> of_int d" "(of_int d :: rat) < of_int (2 ^ nat bd)"
      by (simp_all only: of_int_le_iff of_int_less_iff)
    then show "2 powi (bd - 1) \<le> (of_int d :: rat)" "(of_int d :: rat) < 2 powi bd"
      using bd1 by (simp_all add: power_int_def)
  qed
  have dpos: "0 < (of_int d :: rat)" using d by simp
  have upper: "q < 2 powi (bp - bd + 1)"
  proof -
    have "of_int p < (2::rat) powi bp" by (rule pb)
    also have "\<dots> = 2 powi (bp - bd + 1) * 2 powi (bd - 1)"
      by (simp add: pow2_add [symmetric])
    also have "\<dots> \<le> 2 powi (bp - bd + 1) * of_int d"
      using db(1) by (simp add: mult_left_mono)
    finally show ?thesis using dpos by (simp add: q pos_divide_less_eq)
  qed
  have lower: "2 powi (bp - bd - 1) \<le> q"
  proof -
    have "2 powi (bp - bd - 1) * of_int d \<le> 2 powi (bp - bd - 1) * (2::rat) powi bd"
      using db(2) by (simp add: mult_left_mono)
    also have "\<dots> = 2 powi (bp - 1)"
      by (simp add: pow2_add [symmetric])
    also have "\<dots> \<le> of_int p" by (rule pb)
    finally show ?thesis using dpos by (simp add: q pos_le_divide_eq)
  qed
  have il: "ilog2 q = (if 2 powi (bp - bd) \<le> q then bp - bd else bp - bd - 1)"
    by (simp add: ilog2_def pd bp_def bd_def Let_def)
  show "2 powi (ilog2 q) \<le> q"
    using lower by (simp add: il)
  show "q < 2 powi (ilog2 q + 1)"
    using upper by (simp add: il not_le)
qed

lemma ilog2_unique:
  assumes "0 < q" "2 powi e \<le> q" "q < 2 powi (e + 1)"
  shows "ilog2 q = e"
proof (rule ccontr)
  assume ne: "ilog2 q \<noteq> e"
  show False
  proof (cases "ilog2 q < e")
    case True
    then have "2 powi (ilog2 q + 1) \<le> (2::rat) powi e" by (intro pow2_mono) simp
    with ilog2_bounds(2) [OF assms(1)] assms(2) show False by simp
  next
    case False
    with ne have "e + 1 \<le> ilog2 q" by simp
    then have "2 powi (e + 1) \<le> (2::rat) powi (ilog2 q)" by (intro pow2_mono)
    with ilog2_bounds(1) [OF assms(1)] assms(3) show False by simp
  qed
qed

lemma ilog2_mono:
  assumes "0 < x" "x \<le> y"
  shows "ilog2 x \<le> ilog2 y"
proof (rule ccontr)
  assume "\<not> ilog2 x \<le> ilog2 y"
  then have "ilog2 y + 1 \<le> ilog2 x" by simp
  then have "2 powi (ilog2 y + 1) \<le> (2::rat) powi (ilog2 x)" by (intro pow2_mono)
  moreover have "0 < y" using assms by simp
  ultimately show False
    using ilog2_bounds(1) [OF assms(1)] ilog2_bounds(2) [of y] assms(2) by simp
qed

subsection \<open>Rounding is monotone\<close>

lemma rne_cases:
  "rne x = \<lfloor>x\<rfloor> \<or> rne x = \<lfloor>x\<rfloor> + 1"
  by (simp add: rne_def Let_def)

lemma rne_of_int [simp]: "rne (of_int n) = n"
  by (simp add: rne_def Let_def)

lemma rne_ge_floor: "\<lfloor>x\<rfloor> \<le> rne x"
  using rne_cases [of x] by auto

lemma rne_lower: "of_int a \<le> x \<Longrightarrow> a \<le> rne x"
  using rne_ge_floor [of x] le_floor_iff [of a x] by linarith

lemma rne_upper:
  assumes "x \<le> of_int b"
  shows "rne x \<le> b"
proof (cases "x = of_int b")
  case True
  then show ?thesis by simp
next
  case False
  with assms have "x < of_int b" by simp
  then have "\<lfloor>x\<rfloor> < b" by (simp add: floor_less_iff)
  then show ?thesis using rne_cases [of x] by auto
qed

lemma rne_mono:
  assumes "x \<le> y"
  shows "rne x \<le> rne y"
proof (cases "\<lfloor>x\<rfloor> = \<lfloor>y\<rfloor>")
  case True
  have "x - of_int \<lfloor>x\<rfloor> \<le> y - of_int \<lfloor>y\<rfloor>" using assms True by simp
  then show ?thesis
    by (auto simp add: rne_def Let_def True)
next
  case False
  have "\<lfloor>x\<rfloor> \<le> \<lfloor>y\<rfloor>" using assms by (rule floor_mono)
  with False have "\<lfloor>x\<rfloor> + 1 \<le> \<lfloor>y\<rfloor>" by simp
  moreover have "rne x \<le> \<lfloor>x\<rfloor> + 1" using rne_cases [of x] by auto
  ultimately show ?thesis using rne_ge_floor [of y] by linarith
qed

lemma ulp_pos [simp]: "0 < ulp q"
  by (simp add: ulp_def)

lemma ulp_ge0 [simp]: "0 \<le> ulp q"
  by (simp add: ulp_def)

lemma rpos_upper:
  assumes "0 < x"
  shows "rpos x \<le> 2 powi (max (ilog2 x) (- 1022) + 1)"
proof -
  define e where "e = max (ilog2 x) (- 1022)"
  have u: "ulp x = 2 powi (e - 52)" by (simp add: ulp_def e_def)
  have "x < 2 powi (ilog2 x + 1)" using ilog2_bounds(2) [OF assms] .
  also have "\<dots> \<le> 2 powi (e + 1)" by (rule pow2_mono) (simp add: e_def)
  finally have "x \<le> 2 powi (e + 1)" by simp
  then have "x / ulp x \<le> 2 powi (e + 1) / ulp x"
    by (rule divide_right_mono) simp
  also have "2 powi (e + 1) / ulp x = 2 powi 53"
    by (simp add: u pow2_diff [symmetric])
  also have "\<dots> = of_int (2 ^ 53)" by simp
  finally have "rne (x / ulp x) \<le> 2 ^ 53" by (rule rne_upper)
  then have "(of_int (rne (x / ulp x)) :: rat) \<le> of_int (2 ^ 53)"
    by (simp only: of_int_le_iff)
  then have "rpos x \<le> of_int (2 ^ 53) * ulp x"
    unfolding rpos_def by (rule mult_right_mono) simp
  also have "of_int (2 ^ 53) * ulp x = 2 powi 53 * 2 powi (e - 52)" by (simp add: u)
  also have "\<dots> = 2 powi (53 + (e - 52))" by (rule pow2_add [symmetric])
  also have "53 + (e - 52) = e + 1" by simp
  finally show ?thesis by (simp add: e_def)
qed

lemma rpos_lower:
  assumes "0 < y" "- 1022 \<le> ilog2 y"
  shows "2 powi (ilog2 y) \<le> rpos y"
proof -
  define e where "e = ilog2 y"
  have u: "ulp y = 2 powi (e - 52)" using assms(2) by (simp add: ulp_def e_def max_def)
  have "2 powi e \<le> y" using ilog2_bounds(1) [OF assms(1)] by (simp add: e_def)
  then have "2 powi e / ulp y \<le> y / ulp y" by (rule divide_right_mono) simp
  moreover have "2 powi e / ulp y = 2 powi 52" by (simp add: u pow2_diff [symmetric])
  moreover have "(2::rat) powi 52 = of_int (2 ^ 52)" by simp
  ultimately have "of_int (2 ^ 52) \<le> y / ulp y" by simp
  then have "2 ^ 52 \<le> rne (y / ulp y)" by (rule rne_lower)
  then have "(of_int (2 ^ 52) :: rat) \<le> of_int (rne (y / ulp y))"
    by (simp only: of_int_le_iff)
  then have "of_int (2 ^ 52) * ulp y \<le> rpos y"
    unfolding rpos_def by (rule mult_right_mono) simp
  moreover have "of_int (2 ^ 52) * ulp y = 2 powi 52 * 2 powi (e - 52)" by (simp add: u)
  moreover have "2 powi 52 * 2 powi (e - 52) = (2::rat) powi e"
    using pow2_add [of 52 "e - 52"] by (simp del: power_int_numeral)
  ultimately show ?thesis by (simp add: e_def)
qed

lemma rpos_nonneg: "0 < q \<Longrightarrow> 0 \<le> rpos q"
proof -
  assume "0 < q"
  then have "of_int 0 \<le> q / ulp q" by (simp add: less_imp_le)
  then have "0 \<le> rne (q / ulp q)" by (rule rne_lower)
  then show ?thesis by (simp add: rpos_def)
qed

lemma rpos_mono:
  assumes "0 < x" "x \<le> y"
  shows "rpos x \<le> rpos y"
proof -
  have y: "0 < y" using assms by simp
  define ex where "ex = max (ilog2 x) (- 1022)"
  define ey where "ey = max (ilog2 y) (- 1022)"
  have le: "ex \<le> ey" using ilog2_mono [OF assms] by (simp add: ex_def ey_def)
  show ?thesis
  proof (cases "ex = ey")
    case True
    then have u: "ulp x = ulp y" by (simp add: ulp_def ex_def ey_def)
    have "x / ulp y \<le> y / ulp y" using assms(2) by (rule divide_right_mono) simp
    then have "rne (x / ulp y) \<le> rne (y / ulp y)" by (rule rne_mono)
    then have "(of_int (rne (x / ulp y)) :: rat) \<le> of_int (rne (y / ulp y))"
      by (simp only: of_int_le_iff)
    then show ?thesis unfolding rpos_def u by (rule mult_right_mono) simp
  next
    case False
    with le have lt: "ex + 1 \<le> ey" by simp
    then have norm: "- 1022 \<le> ilog2 y" "ey = ilog2 y" by (auto simp: ex_def ey_def max_def split: if_splits)
    have "rpos x \<le> 2 powi (ex + 1)" using rpos_upper [OF assms(1)] by (simp add: ex_def)
    also have "\<dots> \<le> 2 powi ey" using lt by (rule pow2_mono)
    also have "\<dots> \<le> rpos y" using rpos_lower [OF y norm(1)] by (simp add: norm(2))
    finally show ?thesis .
  qed
qed

lemma fl_pos_cases:
  assumes "0 < q"
  shows "fl_pos q = PInf \<or> (\<exists>r. fl_pos q = Fin r \<and> 0 \<le> r)"
  using rpos_nonneg [OF assms] by (simp add: fl_pos_def)

lemma fl_zero [simp]: "fl 0 = Fin 0"
  by (simp add: fl_def)

lemma fl_nonneg_cases:
  assumes "0 \<le> q"
  shows "fl q = PInf \<or> (\<exists>r. fl q = Fin r \<and> 0 \<le> r)"
proof (cases "q = 0")
  case True
  then show ?thesis by simp
next
  case False
  with assms have "0 < q" by simp
  then show ?thesis using fl_pos_cases [of q] by (simp add: fl_def)
qed

lemma fl_pos_mono:
  assumes "0 < x" "x \<le> y"
  shows "num_le (fl_pos x) (fl_pos y)"
  using rpos_mono [OF assms] by (simp add: fl_pos_def)

lemma fl_mono:
  assumes "0 \<le> x" "x \<le> y"
  shows "num_le (fl x) (fl y)"
proof (cases "x = 0")
  case True
  have "0 \<le> y" using assms by simp
  then show ?thesis using fl_nonneg_cases [of y] True by auto
next
  case False
  with assms have "0 < x" "0 < y" by simp_all
  then show ?thesis using fl_pos_mono [OF \<open>0 < x\<close> assms(2)] by (simp add: fl_def)
qed

lemma fl_minus: "fl (- q) = num_neg (fl q)"
proof -
  have "num_neg (num_neg x) = x" for x by (cases x) simp_all
  then show ?thesis by (simp add: fl_def)
qed

lemma rpos_exact:
  assumes "q / ulp q = of_int m"
  shows "rpos q = q"
proof -
  have "rpos q = of_int m * ulp q" by (simp add: rpos_def assms)
  also have "\<dots> = q / ulp q * ulp q" by (simp only: assms)
  also have "\<dots> = q" using ulp_pos [of q] by (simp add: less_imp_neq [THEN not_sym])
  finally show ?thesis .
qed

lemma ilog2_less:
  assumes "0 < q" "q < 2 powi n"
  shows "ilog2 q < n"
proof (rule ccontr)
  assume "\<not> ilog2 q < n"
  then have "2 powi n \<le> (2::rat) powi (ilog2 q)" by (intro pow2_mono) simp
  with ilog2_bounds(1) [OF assms(1)] assms(2) show False by simp
qed

lemma fl_exact_pos:
  assumes q: "q = of_int m * 2 powi k"
    and pos: "0 < q"
    and prec: "q < 2 powi (k + 53)"
    and sub: "- 1074 \<le> k"
    and rng: "q < 2 ^ 1024"
  shows "fl q = Fin q"
proof -
  define e where "e = max (ilog2 q) (- 1022)"
  have "ilog2 q < k + 53" using pos prec by (rule ilog2_less)
  with sub have ek: "e - 52 \<le> k" by (simp add: e_def)
  define j where "j = nat (k - (e - 52))"
  have k: "k = (e - 52) + int j" using ek by (simp add: j_def)
  have u: "ulp q = 2 powi (e - 52)" by (simp add: ulp_def e_def)
  have qq: "q = of_int m * (2 powi (e - 52) * 2 powi (int j))"
    by (subst pow2_add [symmetric]) (simp add: q k [symmetric])
  have "q / ulp q = q / 2 powi (e - 52)" by (simp only: u)
  also have "\<dots> = of_int m * 2 ^ j"
    using qq by simp
  also have "\<dots> = of_int (m * 2 ^ j)" by simp
  finally have "rpos q = q" by (rule rpos_exact)
  then show ?thesis using pos rng by (simp add: fl_def fl_pos_def)
qed

lemma is_double_intro:
  assumes "q = of_int m * 2 powi k" "\<bar>q\<bar> < 2 powi (k + 53)" "- 1074 \<le> k" "\<bar>q\<bar> < 2 ^ 1024"
  shows "is_double q"
proof -
  consider "q = 0" | "0 < q" | "q < 0" by linarith
  then show ?thesis
  proof cases
    case 1
    then show ?thesis by (simp add: is_double_def)
  next
    case 2
    then show ?thesis using assms fl_exact_pos [of q m k] by (simp add: is_double_def)
  next
    case 3
    have "- q = of_int (- m) * 2 powi k" using assms(1) by simp
    then have "fl (- q) = Fin (- q)"
      using 3 assms by (intro fl_exact_pos [of "- q" "- m" k]) simp_all
    then have "num_neg (fl q) = Fin (- q)" by (simp add: fl_minus)
    then have "fl q = Fin q" by (cases "fl q") simp_all
    then show ?thesis by (simp add: is_double_def)
  qed
qed

lemma is_double_int:
  assumes "\<bar>n\<bar> < 2 ^ 53"
  shows "is_double (of_int n)"
proof (rule is_double_intro [of _ n 0])
  show "(of_int n :: rat) = of_int n * 2 powi 0" by simp
  have "(of_int \<bar>n\<bar> :: rat) < of_int (2 ^ 53)" using assms by (simp only: of_int_less_iff)
  then show "\<bar>of_int n :: rat\<bar> < 2 powi (0 + 53)" by simp
  then show "\<bar>of_int n :: rat\<bar> < 2 ^ 1024" by simp
qed simp

lemma is_double_numeral:
  assumes "(numeral k :: int) < 2 ^ 53"
  shows "is_double (numeral k)"
  using is_double_int [of "numeral k"] assms by simp

section \<open>The calculators never throw\<close>

lemma bind_Inr [simp]: "bind (Inr x) f = f x"
  by (simp add: bind_def)

lemma bind_Inl [simp]: "bind (Inl e) f = Inl e"
  by (simp add: bind_def)

lemma reduce_Some:
  assumes "\<And>acc x. f acc (Some x) = Inr (g acc x)"
  shows "reduce f a (map Some xs) = Inr (foldl g a xs)"
  by (induction xs arbitrary: a) (simp_all add: assms)

lemma filter_validCourse: "filter validCourse es = map Some (kept_courses es)"
proof (induction es)
  case Nil
  show ?case by (simp add: kept_courses_def List.map_filter_simps)
next
  case (Cons e es)
  then show ?case
    by (cases e) (simp_all add: kept_courses_def List.map_filter_simps)
qed

lemma filter_validSemester: "filter validSemester es = map Some (kept_semesters es)"
proof (induction es)
  case Nil
  show ?case by (simp add: kept_semesters_def List.map_filter_simps)
next
  case (Cons e es)
  then show ?case
    by (cases e) (simp_all add: kept_semesters_def List.map_filter_simps)
qed

lemma calculateGpa_eq: "calculateGpa es = Inr (gpa_of (kept_courses es))"
proof -
  have r1: "reduce (\<lambda>sum c. bind (get_prop Course.creditHours c) (\<lambda>h. Inr (num_add sum h)))
              a (map Some cs)
            = Inr (foldl (\<lambda>sum c. num_add sum (Course.creditHours c)) a cs)" for a cs
    by (rule reduce_Some) simp
  have r2: "reduce (\<lambda>sum c.
                bind (get_prop grade c) (\<lambda>g.
                  bind (get_prop Course.creditHours c) (\<lambda>h.
                    Inr (num_add sum (num_mul h
                      (ToNumber (nullish (GRADE_POINTS_get g) (Num (Fin 0)))))))))
              a (map Some cs)
            = Inr (foldl (\<lambda>sum c. num_add sum (num_mul (Course.creditHours c)
                             (ToNumber (nullish (GRADE_POINTS_get (grade c)) (Num (Fin 0))))))
                     a cs)" for a cs
    by (rule reduce_Some) simp
  show ?thesis
    unfolding calculateGpa_def filter_validCourse Let_def r1 r2 bind_Inr gpa_of_def
    by simp
qed

lemma calculateCgpa_eq: "calculateCgpa es = Inr (cgpa_of (kept_semesters es))"
proof -
  have r1: "reduce (\<lambda>sum s. bind (get_prop SemesterSummary.creditHours s)
                               (\<lambda>h. Inr (num_add sum h)))
              a (map Some ts)
            = Inr (foldl (\<lambda>sum s. num_add sum (SemesterSummary.creditHours s)) a ts)" for a ts
    by (rule reduce_Some) simp
  have r2: "reduce (\<lambda>sum s.
                bind (get_prop SemesterSummary.gpa s) (\<lambda>g.
                  bind (get_prop SemesterSummary.creditHours s) (\<lambda>h.
                    Inr (num_add sum (num_mul g h)))))
              a (map Some ts)
            = Inr (foldl (\<lambda>sum s. num_add sum (num_mul (SemesterSummary.gpa s)
                             (SemesterSummary.creditHours s))) a ts)" for a ts
    by (rule reduce_Some) simp
  show ?thesis
    unfolding calculateCgpa_def filter_validSemester Let_def r1 r2 bind_Inr cgpa_of_def
    by simp
qed

section \<open>Evaluating the model\<close>

lemma fl_double: "is_double q \<Longrightarrow> fl q = Fin q"
  by (simp add: is_double_def)

lemma validSemester_Some: "validSemester (Some s) = valid_term s"
  by (simp add: valid_term_def)

lemma kept_semesters_eq: "kept_semesters es = valid_terms es"
  by (simp add: kept_semesters_def valid_terms_def valid_term_def [abs_def])

lemma floor_rat_numeral_div:
  "\<lfloor>(numeral a :: rat) / numeral b\<rfloor> = numeral a div numeral b"
  by (metis floor_divide_of_int_eq of_int_numeral)

lemma floor_rat_neg_numeral_div:
  "\<lfloor>- (numeral a :: rat) / numeral b\<rfloor> = - numeral a div numeral b"
  by (metis floor_divide_of_int_eq of_int_numeral of_int_minus)

lemmas eval_simps = floor_rat_numeral_div floor_rat_neg_numeral_div
  kept_courses_def kept_semesters_def valid_terms_def valid_courses_def valid_term_def
  valid_course_def pointsFor_def List.map_filter_simps GRADE_POINTS_get_def GRADE_POINTS_def
  Object_prototype_def gpa_of_def cgpa_of_def Let_def roundToTwo_def fl_double
  is_double_numeral signed_inf_def

lemma fl_eval:
  assumes "2 powi e \<le> q" "q < 2 powi (e + 1)" "- 1022 \<le> e"
    and "rne (q / 2 powi (e - 52)) = n" "of_int n * 2 powi (e - 52) = r" "r < 2 ^ 1024"
  shows "fl q = Fin r"
proof -
  have pos: "0 < q" using assms(1) pow2_pos [of e] by (rule less_le_trans [rotated])
  have "ilog2 q = e" using pos assms(1,2) by (rule ilog2_unique)
  then have "ulp q = 2 powi (e - 52)" using assms(3) by (simp add: ulp_def max_def)
  then have "rpos q = r" using assms(4,5) by (simp add: rpos_def)
  then show ?thesis using pos assms(6) by (simp add: fl_def fl_pos_def)
qed

lemma fl_overflow:
  assumes "2 ^ 1024 \<le> q"
  shows "fl q = PInf"
proof -
  define b :: rat where "b = 2 ^ 1024"
  have big: "0 < b" by (simp add: b_def)
  have bq: "b \<le> q" using assms by (simp add: b_def)
  have pos: "0 < q" using big bq by (rule less_le_trans)
  have il: "ilog2 b = 1024"
    by (rule ilog2_unique) (simp_all add: b_def)
  have u: "ulp b = 2 powi 972" by (simp add: ulp_def il del: power_int_numeral)
  have bp: "b = 2 powi 1024" by (simp add: b_def)
  have "b / ulp b = 2 powi 1024 / 2 powi 972" by (simp only: u) (simp only: bp)
  also have "\<dots> = 2 powi (1024 - 972)" by (rule pow2_diff [symmetric])
  also have "\<dots> = of_int (2 ^ 52)" by simp
  finally have "rpos b = b" by (rule rpos_exact)
  then have "b \<le> rpos q" using rpos_mono [OF big bq] by simp
  then show ?thesis using pos by (simp add: fl_def fl_pos_def b_def)
qed

lemma rne_eval:
  "rne (numeral a / numeral b) =
    (let f = numeral a div numeral b; r = numeral a mod (numeral b :: int)
     in if 2 * r < numeral b then f else if numeral b < 2 * r then f + 1
        else if even f then f else f + 1)"
proof -
  define x y :: int where "x = numeral a" and "y = numeral b"
  have y: "0 < y" by (simp add: y_def)
  have fl: "\<lfloor>(of_int x :: rat) / of_int y\<rfloor> = x div y" by (rule floor_divide_of_int_eq)
  have fr: "(of_int x :: rat) / of_int y - of_int (x div y) = of_int (x mod y) / of_int y"
    using y by (simp add: field_simps of_int_mult [symmetric] of_int_add [symmetric] del: of_int_mult of_int_add)
  have lt: "(of_int (x mod y) :: rat) / of_int y < 1 / 2 \<longleftrightarrow> 2 * (x mod y) < y"
    using y by (simp add: field_simps of_int_mult [symmetric] of_int_less_iff del: of_int_mult) 
       (metis (no_types, opaque_lifting) mult.commute of_int_less_iff of_int_mult of_int_numeral)
  have gt: "1 / 2 < (of_int (x mod y) :: rat) / of_int y \<longleftrightarrow> y < 2 * (x mod y)"
    using y by (simp add: field_simps of_int_mult [symmetric] of_int_less_iff del: of_int_mult)
       (metis (no_types, opaque_lifting) mult.commute of_int_less_iff of_int_mult of_int_numeral)
  have "rne (of_int x / of_int y) =
    (let f = x div y; r = x mod y
     in if 2 * r < y then f else if y < 2 * r then f + 1
        else if even f then f else f + 1)"
    unfolding rne_def Let_def fl fr lt gt ..
  then show ?thesis unfolding x_def y_def of_int_numeral .
qed

lemma huge_pos: "0 < huge"
  by (simp add: huge_def)

lemma huge_double: "is_double huge"
  unfolding huge_def by (rule is_double_intro [of _ 1 1023]) simp_all

lemma huge_overflow: "fl (2 * huge) = PInf"
  by (rule fl_overflow) (simp add: huge_def)

lemma double_7_2: "is_double (7 / 2)"
  by (rule is_double_intro [of _ 7 "- 1"]) simp_all

lemma double_105_2: "is_double (105 / 2)"
  by (rule is_double_intro [of _ 105 "- 1"]) simp_all

lemma double_177_2: "is_double (177 / 2)"
  by (rule is_double_intro [of _ 177 "- 1"]) simp_all

lemma fl_59_18: "fl (59 / 18) = Fin (3690449694650823 / 1125899906842624)"
  by (rule fl_eval [of 1 _ 7380899389301646]) (simp_all add: rne_eval Let_def)

lemma fl_raw_100: "fl (92261242366270575 / 281474976710656) = Fin (5766327647891911 / 17592186044416)"
  by (rule fl_eval [of 8 _ 5766327647891911]) (simp_all add: rne_eval Let_def)

lemma fl_82_25: "fl (82 / 25) = Fin (7385903388887613 / 2251799813685248)"
  by (rule fl_eval [of 1 _ 7385903388887613]) (simp_all add: rne_eval Let_def)

lemma double_minus_25_2: "is_double (- (25 / 2))"
  by (rule is_double_intro [of _ "- 25" "- 1"]) simp_all

lemma fl_3_25: "fl (3 / 25) = Fin (8646911284551352 / 2 ^ 56)"
  by (rule fl_eval [of "- 4" _ 8646911284551352]) (simp_all add: rne_eval Let_def)

lemma fl_13_100: "fl (13 / 100) = Fin (4683743612465316 / 2 ^ 55)"
  by (rule fl_eval [of "- 3" _ 4683743612465316]) (simp_all add: rne_eval Let_def)

lemma double_25_2: "is_double (25 / 2)"
  by (rule is_double_intro [of _ 25 "- 1"]) simp_all

section \<open>Sums of positive doubles\<close>

lemma add_pos_double:
  assumes "0 \<le> a" "0 < b" "is_double b"
  shows "num_add (Fin a) (Fin b) = PInf \<or> (\<exists>r. num_add (Fin a) (Fin b) = Fin r \<and> b \<le> r)"
proof -
  have "num_le (fl b) (fl (a + b))" using assms(1,2) by (intro fl_mono) simp_all
  then have le: "num_le (Fin b) (fl (a + b))" using assms(3) by (simp add: is_double_def)
  have "0 \<le> a + b" using assms by simp
  then show ?thesis using fl_nonneg_cases [of "a + b"] le by auto
qed

lemma pos_doubleE:
  assumes "pos_double x"
  obtains b where "x = Fin b" "0 < b" "is_double b"
  using assms by (cases x) (simp_all add: pos_double_def)

lemma reached_add:
  assumes "reached acc \<or> acc = Fin 0" "pos_double x"
  shows "reached (num_add acc x)"
proof -
  obtain b where x: "x = Fin b" "0 < b" "is_double b" using assms(2) by (rule pos_doubleE)
  from assms(1) consider "acc = PInf" | a where "acc = Fin a" "0 \<le> a"
    by (auto simp: reached_def)
  then show ?thesis
  proof cases
    case 1
    then show ?thesis by (simp add: x(1) reached_def)
  next
    case 2
    then show ?thesis using add_pos_double [OF 2(2) x(2,3)] x(2)
      by (auto simp add: x(1) reached_def)
  qed
qed

lemma reached_foldl:
  assumes "reached acc" "\<forall>x\<in>set xs. pos_double x"
  shows "reached (foldl num_add acc xs)"
  using assms by (induction xs arbitrary: acc) (simp_all add: reached_add)

lemma reached_sum:
  assumes "xs \<noteq> []" "\<forall>x\<in>set xs. pos_double x"
  shows "reached (sum_numbers xs)"
proof (cases xs)
  case Nil
  with assms show ?thesis by simp
next
  case (Cons x ys)
  then have "reached (num_add (Fin 0) x)" using assms(2) by (simp add: reached_add)
  then show ?thesis using assms(2) Cons by (simp add: sum_numbers_def reached_foldl)
qed

lemma reached_guard:
  assumes "reached s" "Number_isFinite s"
  shows "\<not> num_le s (Fin 0)" "num_less (Fin 0) s"
  using assms by (auto simp: reached_def)

lemma map_filter_Some: "List.map_filter id (map Some xs) = xs"
  by (induction xs) (simp_all add: List.map_filter_simps)

lemma valid_course_kept: "valid_course c \<Longrightarrow> validCourse (Some c)"
  by (auto simp: valid_course_def pointsFor_def GRADE_POINTS_get_def split: option.splits)

lemma kept_courses_valid:
  assumes "\<forall>c\<in>set cs. valid_course c"
  shows "kept_courses (map Some cs) = cs"
  using assms
  by (simp add: kept_courses_def map_filter_Some filter_id_conv valid_course_kept
      del: validCourse.simps)

lemma kept_semesters_valid:
  assumes "\<forall>s\<in>set ts. valid_term s"
  shows "kept_semesters (map Some ts) = ts"
  using assms
  by (simp add: kept_semesters_def map_filter_Some filter_id_conv validSemester_Some
      del: validSemester.simps)

lemma valid_course_points:
  "valid_course c \<Longrightarrow> ToNumber (nullish (GRADE_POINTS_get (grade c)) (Num (Fin 0))) = course_points c"
  by (auto simp: valid_course_def pointsFor_def GRADE_POINTS_get_def course_points_def
           split: option.splits)

lemma fold_hours: "foldl (\<lambda>sum c. num_add sum (Course.creditHours c)) (Fin 0) cs = course_hours cs"
  by (simp add: course_hours_def sum_numbers_def foldl_map)

lemma fold_weighted:
  assumes "\<forall>c\<in>set cs. valid_course c"
  shows "foldl (\<lambda>sum c. num_add sum (num_mul (Course.creditHours c)
                 (ToNumber (nullish (GRADE_POINTS_get (grade c)) (Num (Fin 0)))))) (Fin 0) cs
         = course_weighted cs"
  unfolding course_weighted_def sum_numbers_def foldl_map
  using assms by (intro foldl_cong) (simp_all add: valid_course_points)

lemma fold_term_hours:
  "foldl (\<lambda>sum s. num_add sum (SemesterSummary.creditHours s)) (Fin 0) ts = term_hours ts"
  by (simp add: term_hours_def sum_numbers_def foldl_map)

lemma fold_term_weighted:
  "foldl (\<lambda>sum s. num_add sum (num_mul (SemesterSummary.gpa s) (SemesterSummary.creditHours s)))
     (Fin 0) ts = term_weighted ts"
  by (simp add: term_weighted_def sum_numbers_def foldl_map)

lemma course_hours_reached:
  assumes "cs \<noteq> []" "\<forall>c\<in>set cs. valid_course c \<and> double_number (Course.creditHours c)"
  shows "reached (course_hours cs)"
  unfolding course_hours_def using assms
  by (intro reached_sum) (auto simp: pos_double_def valid_course_def)

lemma term_hours_reached:
  assumes "ts \<noteq> []" "\<forall>s\<in>set ts. valid_term s \<and> double_number (SemesterSummary.creditHours s)"
  shows "reached (term_hours ts)"
  unfolding term_hours_def using assms
  by (intro reached_sum) (auto simp: pos_double_def valid_term_def)

section \<open>Rounding halves\<close>

lemma floor_neg_half:
  fixes q :: rat
  assumes "of_int \<lfloor>q + 1 / 2\<rfloor> \<noteq> q + 1 / 2"
  shows "- \<lfloor>- q + 1 / 2\<rfloor> = \<lfloor>q + 1 / 2\<rfloor>"
proof -
  define n where "n = \<lfloor>q + 1 / 2\<rfloor>"
  have "of_int n \<le> q + 1 / 2 \<and> q + 1 / 2 < of_int n + 1"
    unfolding n_def using floor_correct [of "q + 1 / 2"] by simp
  then have "of_int n \<le> q + 1 / 2" "q + 1 / 2 < of_int n + 1" by blast+
  moreover have "of_int n \<noteq> q + 1 / 2" using assms by (simp add: n_def)
  ultimately have "of_int (- n) \<le> - q + 1 / 2" "- q + 1 / 2 < of_int (- n) + 1" by simp_all
  then have "\<lfloor>- q + 1 / 2\<rfloor> = - n" by (intro floor_unique)
  then show ?thesis by (simp add: n_def)
qed

lemma Math_round_half_away:
  assumes "\<not> negative_tie y"
  shows "Math_round y = round_half_away y"
proof (cases y)
  case (Fin q)
  show ?thesis
  proof (cases "q < 0")
    case True
    with assms Fin have "of_int \<lfloor>q + 1 / 2\<rfloor> \<noteq> q + 1 / 2" by simp
    then have "- \<lfloor>- q + 1 / 2\<rfloor> = \<lfloor>q + 1 / 2\<rfloor>" by (rule floor_neg_half)
    then show ?thesis using True by (simp add: Fin abs_if)
  next
    case False
    then show ?thesis by (simp add: Fin abs_if)
  qed
qed simp_all

section \<open>Scaling by four commutes with rounding\<close>

lemma on_grid_0 [simp]: "on_grid 0"
  unfolding on_grid_def by (rule exI [of _ 0]) simp

lemma on_grid_add:
  assumes "on_grid a" "on_grid b"
  shows "on_grid (a + b)"
proof -
  from assms obtain m n where "a = of_int m * 2 powi (- 1074)" "b = of_int n * 2 powi (- 1074)"
    unfolding on_grid_def by blast
  then have "a + b = of_int (m + n) * 2 powi (- 1074)" by (simp add: algebra_simps)
  then show ?thesis unfolding on_grid_def by (rule exI)
qed

lemma on_grid_minus:
  assumes "on_grid a"
  shows "on_grid (- a)"
proof -
  from assms obtain m where "a = of_int m * 2 powi (- 1074)" unfolding on_grid_def by blast
  then have "- a = of_int (- m) * 2 powi (- 1074)" by simp
  then show ?thesis unfolding on_grid_def by (rule exI)
qed

lemma on_grid_mult_int:
  assumes "on_grid a"
  shows "on_grid (of_int k * a)"
proof -
  from assms obtain m where "a = of_int m * 2 powi (- 1074)" unfolding on_grid_def by blast
  then have "of_int k * a = of_int (k * m) * 2 powi (- 1074)" by simp
  then show ?thesis unfolding on_grid_def by (rule exI)
qed

lemma pow2_on_grid:
  assumes "- 1074 \<le> k"
  shows "on_grid (2 powi k)"
proof -
  have "(2::rat) powi k = 2 powi (int (nat (k + 1074)) + (- 1074))" using assms by simp
  also have "\<dots> = 2 powi (int (nat (k + 1074))) * 2 powi (- 1074)" by (rule pow2_add)
  also have "\<dots> = of_int (2 ^ nat (k + 1074)) * 2 powi (- 1074)"
    by (simp only: power_int_of_nat of_int_power of_int_numeral)
  finally show ?thesis unfolding on_grid_def by (rule exI)
qed

lemma ulp_on_grid: "on_grid (ulp q)"
  unfolding ulp_def by (rule pow2_on_grid) simp

lemma rpos_on_grid: "on_grid (rpos q)"
  unfolding rpos_def by (rule on_grid_mult_int) (rule ulp_on_grid)

lemma fl_pos_on_grid: "fl_pos x = Fin r \<Longrightarrow> on_grid r"
  using rpos_on_grid [of x] by (auto simp: fl_pos_def split: if_splits)

lemma fl_on_grid:
  assumes "fl x = Fin r"
  shows "on_grid r"
proof -
  consider "x = 0" | "0 < x" | "x < 0" by linarith
  then show ?thesis
  proof cases
    case 1
    with assms show ?thesis by simp
  next
    case 2
    with assms show ?thesis by (simp add: fl_def fl_pos_on_grid)
  next
    case 3
    with assms have "num_neg (fl_pos (- x)) = Fin r" by (simp add: fl_def)
    then have "fl_pos (- x) = Fin (- r)" by (cases "fl_pos (- x)") auto
    then have "on_grid (- r)" by (rule fl_pos_on_grid)
    then show ?thesis using on_grid_minus [of "- r"] by simp
  qed
qed

lemma double_on_grid: "is_double q \<Longrightarrow> on_grid q"
  unfolding is_double_def by (rule fl_on_grid)

lemma ilog2_times4:
  assumes "0 < y"
  shows "ilog2 (4 * y) = ilog2 y + 2"
proof (rule ilog2_unique)
  show "0 < 4 * y" using assms by simp
  have "2 powi (ilog2 y + 2) = 4 * (2::rat) powi (ilog2 y)"
    by (simp add: pow2_add)
  also have "\<dots> \<le> 4 * y" using ilog2_bounds(1) [OF assms] by simp
  finally show "2 powi (ilog2 y + 2) \<le> 4 * y" .
  have "4 * y < 4 * 2 powi (ilog2 y + 1)" using ilog2_bounds(2) [OF assms] by simp
  also have "\<dots> = 2 powi (ilog2 y + 2 + 1)"
    using pow2_add [of "ilog2 y + 1" 2] by (simp add: add.commute)
  finally show "4 * y < 2 powi (ilog2 y + 2 + 1)" .
qed

lemma rpos_times4:
  assumes "0 < y" "on_grid y"
  shows "rpos (4 * y) = 4 * rpos y"
proof (cases "- 1022 \<le> ilog2 y")
  case True
  then have u: "ulp y = 2 powi (ilog2 y - 52)" by (simp add: ulp_def max_def)
  have "ulp (4 * y) = 2 powi (ilog2 y - 52 + 2)"
    using True by (simp add: ulp_def ilog2_times4 [OF assms(1)] max_def)
  also have "\<dots> = 4 * ulp y" unfolding u using pow2_add [of "ilog2 y - 52" 2] by simp
  finally have u4: "ulp (4 * y) = 4 * ulp y" .
  show ?thesis by (simp add: rpos_def u4)
next
  case False
  define g :: rat where "g = 2 powi (- 1074)"
  have g: "0 < g" by (simp add: g_def)
  have "max (ilog2 y) (- 1022) - 52 = - 1074" using False by simp
  then have u: "ulp y = g" unfolding ulp_def g_def by (rule arg_cong)
  from assms(2) obtain m where m: "y = of_int m * g"
    unfolding on_grid_def g_def by blast
  have "y / ulp y = y / g" by (simp only: u)
  also have "\<dots> = of_int m" using g by (simp add: m)
  finally have e1: "rpos y = y" by (rule rpos_exact)
  have g2: "2 powi (- 1073) = 2 * g"
    unfolding g_def using pow2_add [of 1 "- 1074"] by simp
  from False have "ilog2 y + 2 = - 1021 \<or> ilog2 y + 2 \<le> - 1022" by linarith
  then have "ulp (4 * y) = g \<or> ulp (4 * y) = 2 * g"
  proof
    assume "ilog2 y + 2 = - 1021"
    then have "max (ilog2 (4 * y)) (- 1022) - 52 = - 1073"
      by (simp add: ilog2_times4 [OF assms(1)])
    then have "ulp (4 * y) = 2 powi (- 1073)" unfolding ulp_def by (rule arg_cong)
    then have "ulp (4 * y) = 2 * g" by (simp only: g2)
    then show ?thesis by (rule disjI2)
  next
    assume "ilog2 y + 2 \<le> - 1022"
    then have "max (ilog2 (4 * y)) (- 1022) - 52 = - 1074"
      by (simp add: ilog2_times4 [OF assms(1)])
    then have "ulp (4 * y) = 2 powi (- 1074)" unfolding ulp_def by (rule arg_cong)
    then have "ulp (4 * y) = g" by (simp only: g_def)
    then show ?thesis by (rule disjI1)
  qed
  then have "rpos (4 * y) = 4 * y"
  proof
    assume uu: "ulp (4 * y) = g"
    have "4 * y / ulp (4 * y) = 4 * y / g" by (simp only: uu)
    also have "\<dots> = of_int (4 * m)" using g by (simp add: m)
    finally show ?thesis by (rule rpos_exact)
  next
    assume uu: "ulp (4 * y) = 2 * g"
    have "4 * y / ulp (4 * y) = 4 * y / (2 * g)" by (simp only: uu)
    also have "\<dots> = of_int (2 * m)" using g by (simp add: m)
    finally show ?thesis by (rule rpos_exact)
  qed
  then show ?thesis by (simp add: e1)
qed

section \<open>The weighted sum is at most four times the credit hours\<close>

lemma fl_Fin_rpos:
  assumes "0 < x" "fl x = Fin p"
  shows "p = rpos x"
  using assms by (auto simp: fl_def fl_pos_def split: if_splits)

lemma fl_Fin_nonneg:
  assumes "0 \<le> x" "fl x = Fin p"
  shows "0 \<le> p"
  using fl_nonneg_cases [OF assms(1)] assms(2) by auto

lemma fl_le_times4:
  assumes "0 \<le> x" "x \<le> 4 * y" "0 < y" "on_grid y" "fl x = Fin p" "fl y = Fin s"
  shows "p \<le> 4 * s"
proof (cases "x = 0")
  case True
  then have "p = 0" using assms(5) by simp
  moreover have "0 \<le> s" using assms(3) by (intro fl_Fin_nonneg [OF _ assms(6)]) simp
  ultimately show ?thesis by simp
next
  case False
  with assms(1) have x: "0 < x" by simp
  have "p = rpos x" using x assms(5) by (rule fl_Fin_rpos)
  also have "\<dots> \<le> rpos (4 * y)" using x assms(2) by (rule rpos_mono)
  also have "\<dots> = 4 * rpos y" using assms(3,4) by (rule rpos_times4)
  also have "rpos y = s" using fl_Fin_rpos [OF assms(3,6)] by simp
  finally show ?thesis .
qed

lemma mul_le_times4:
  assumes "0 < b" "is_double b" "0 \<le> p" "p \<le> 4" "fl (b * p) = Fin m"
  shows "0 \<le> m" "m \<le> 4 * b"
proof -
  have nn: "0 \<le> b * p" using assms(1,3) by simp
  show "0 \<le> m" using nn assms(5) by (rule fl_Fin_nonneg)
  have le: "b * p \<le> 4 * b" using assms(1,4) by (simp add: mult.commute)
  have grid: "on_grid b" using assms(2) by (rule double_on_grid)
  have "fl b = Fin b" using assms(2) by (simp add: is_double_def)
  with nn le assms(1) grid assms(5) show "m \<le> 4 * b" by (rule fl_le_times4)
qed

lemma num_add_NaN_right [simp]: "num_add x NaN = NaN"
  by (cases x) simp_all

lemma num_add_PInf_nonneg:
  assumes "y = PInf \<or> (\<exists>m. y = Fin m)"
  shows "num_add PInf y = PInf"
  using assms by auto

lemma gpa_inv_step:
  assumes inv: "gpa_inv S P"
    and b: "0 < b" "is_double b"
    and w: "w = NaN \<or> (\<exists>p. w = Fin p \<and> 0 \<le> p \<and> p \<le> 4)"
  shows "gpa_inv (num_add S (Fin b)) (num_add P (num_mul (Fin b) w))"
proof -
  have grid_b: "on_grid b" using b(2) by (rule double_on_grid)
  have S': "num_add S (Fin b) = PInf \<or> (\<exists>s. num_add S (Fin b) = Fin s \<and> 0 \<le> s \<and> on_grid s)"
  proof -
    from inv consider "S = PInf" | s where "S = Fin s" "0 \<le> s" "on_grid s"
      by (auto simp: gpa_inv_def)
    then show ?thesis
    proof cases
      case 1
      then show ?thesis by simp
    next
      case 2
      have "0 \<le> s + b" using 2(2) b(1) by simp
      then show ?thesis
        using fl_nonneg_cases [of "s + b"] fl_on_grid [of "s + b"] by (auto simp: 2(1))
    qed
  qed
  have P': "num_add P (num_mul (Fin b) w) = NaN \<or> num_add P (num_mul (Fin b) w) = PInf \<or>
      (\<exists>p. num_add P (num_mul (Fin b) w) = Fin p \<and> 0 \<le> p \<and>
         (num_add S (Fin b) = PInf \<or> (\<exists>s. num_add S (Fin b) = Fin s \<and> p \<le> 4 * s)))"
  proof -
    from w consider "w = NaN" | p where "w = Fin p" "0 \<le> p" "p \<le> 4" by blast
    then show ?thesis
    proof cases
      case 1
      then show ?thesis by simp
    next
      case 2
      have nn: "0 \<le> b * p" using b(1) 2(2) by simp
      from fl_nonneg_cases [OF nn] consider "fl (b * p) = PInf" | m where "fl (b * p) = Fin m"
        by blast
      then show ?thesis
      proof cases
        case 1
        from inv have "P = NaN \<or> P = PInf \<or> (\<exists>q. P = Fin q)" by (auto simp: gpa_inv_def)
        then show ?thesis using 1 by (auto simp: 2(1))
      next
        case m: 2
        have mb: "0 \<le> m" "m \<le> 4 * b" using mul_le_times4 [OF b 2(2,3) m] by simp_all
        from inv consider "P = NaN" | "P = PInf"
          | pk where "P = Fin pk" "0 \<le> pk" "S = PInf \<or> (\<exists>s. S = Fin s \<and> pk \<le> 4 * s)"
          by (auto simp: gpa_inv_def)
        then show ?thesis
        proof cases
          case 1
          then show ?thesis by (simp add: 2(1) m)
        next
          case 2
          then show ?thesis by (simp add: \<open>w = Fin p\<close> m)
        next
          case pk: 3
          have xnn: "0 \<le> pk + m" using pk(2) mb(1) by simp
          from fl_nonneg_cases [OF xnn] consider "fl (pk + m) = PInf"
            | p' where "fl (pk + m) = Fin p'" "0 \<le> p'" by blast
          then show ?thesis
          proof cases
            case 1
            then show ?thesis by (simp add: pk(1) \<open>w = Fin p\<close> m)
          next
            case p': 2
            have "num_add S (Fin b) = PInf \<or> (\<exists>s. num_add S (Fin b) = Fin s \<and> p' \<le> 4 * s)"
            proof -
              from pk(3) consider "S = PInf" | s where "S = Fin s" "pk \<le> 4 * s" by blast
              then show ?thesis
              proof cases
                case 1
                then show ?thesis by simp
              next
                case s: 2
                from inv s(1) have sg: "0 \<le> s" "on_grid s" by (auto simp: gpa_inv_def)
                have ypos: "0 < s + b" using sg(1) b(1) by simp
                have yg: "on_grid (s + b)" using sg(2) grid_b by (rule on_grid_add)
                have le: "pk + m \<le> 4 * (s + b)" using s(2) mb(2) by simp
                from fl_nonneg_cases [of "s + b"] ypos
                consider "fl (s + b) = PInf" | s' where "fl (s + b) = Fin s'" by auto
                then show ?thesis
                proof cases
                  case 1
                  then show ?thesis by (simp add: s(1))
                next
                  case 2
                  have "p' \<le> 4 * s'" using xnn le ypos yg p'(1) 2 by (rule fl_le_times4)
                  then show ?thesis by (simp add: s(1) 2)
                qed
              qed
            qed
            then show ?thesis using p'(2) by (simp add: pk(1) \<open>w = Fin p\<close> m p'(1))
          qed
        qed
      qed
    qed
  qed
  show ?thesis unfolding gpa_inv_def using S' P' by blast
qed

lemma grade_points_range:
  assumes "map_of GRADE_POINTS g = Some x"
  shows "\<exists>p. x = Fin p \<and> 0 \<le> p \<and> p \<le> 4"
proof -
  from assms have "(g, x) \<in> set GRADE_POINTS" by (rule map_of_SomeD)
  then have "x \<in> snd ` set GRADE_POINTS" by (rule image_eqI [rotated]) simp
  then show ?thesis by (auto simp: GRADE_POINTS_def)
qed

lemma weight_cases:
  "ToNumber (nullish (GRADE_POINTS_get g) (Num (Fin 0))) = NaN \<or>
   (\<exists>p. ToNumber (nullish (GRADE_POINTS_get g) (Num (Fin 0))) = Fin p \<and> 0 \<le> p \<and> p \<le> 4)"
proof (cases "map_of GRADE_POINTS g")
  case None
  then show ?thesis by (simp add: GRADE_POINTS_get_def)
next
  case (Some x)
  with grade_points_range [OF Some] show ?thesis by (auto simp: GRADE_POINTS_get_def)
qed

lemma gpa_inv_fold:
  assumes "gpa_inv S P" "\<forall>c\<in>set cs. pos_double (Course.creditHours c)"
  shows "gpa_inv (foldl (\<lambda>sum c. num_add sum (Course.creditHours c)) S cs)
           (foldl (\<lambda>sum c. num_add sum (num_mul (Course.creditHours c)
                     (ToNumber (nullish (GRADE_POINTS_get (grade c)) (Num (Fin 0)))))) P cs)"
  using assms
proof (induction cs arbitrary: S P)
  case Nil
  then show ?case by simp
next
  case (Cons c cs)
  from Cons.prems(2) have "pos_double (Course.creditHours c)" by simp
  then obtain b where b: "Course.creditHours c = Fin b" "0 < b" "is_double b"
    by (rule pos_doubleE)
  have "gpa_inv (num_add S (Fin b))
          (num_add P (num_mul (Fin b)
             (ToNumber (nullish (GRADE_POINTS_get (grade c)) (Num (Fin 0))))))"
    using Cons.prems(1) b(2,3) weight_cases by (rule gpa_inv_step)
  moreover have "\<forall>c\<in>set cs. pos_double (Course.creditHours c)" using Cons.prems(2) by simp
  ultimately show ?case using Cons.IH by (simp add: b(1))
qed

lemma gpa_inv_init: "gpa_inv (Fin 0) (Fin 0)"
  by (simp add: gpa_inv_def)

lemma fl_between:
  assumes "0 \<le> x" "x \<le> z" "is_double z"
  shows "\<exists>r. fl x = Fin r \<and> 0 \<le> r \<and> r \<le> z"
proof -
  have "num_le (fl x) (fl z)" using assms(1,2) by (rule fl_mono)
  then have "num_le (fl x) (Fin z)" using assms(3) by (simp add: is_double_def)
  then show ?thesis using fl_nonneg_cases [OF assms(1)] by auto
qed

lemma roundToTwo_range:
  assumes "0 \<le> r" "r \<le> 4"
  shows "\<exists>g. roundToTwo (Fin r) = Fin g \<and> 0 \<le> g \<and> g \<le> 4"
proof -
  have "0 \<le> r * 100" "r * 100 \<le> 400" using assms by simp_all
  moreover have "is_double 400" by (simp add: is_double_numeral)
  ultimately obtain t where t: "fl (r * 100) = Fin t" "0 \<le> t" "t \<le> 400"
    using fl_between [of "r * 100" 400] by blast
  define n where "n = \<lfloor>t + 1 / 2\<rfloor>"
  have "0 \<le> n" unfolding n_def using t(2) by (simp add: zero_le_floor)
  moreover have "n \<le> 400"
  proof -
    have "t + 1 / 2 < of_int 401" using t(3) by simp
    then have "n < 401" unfolding n_def by (simp only: floor_less_iff)
    then show ?thesis by simp
  qed
  ultimately have "0 \<le> (of_int n :: rat) / 100" "(of_int n :: rat) / 100 \<le> 4" by simp_all
  moreover have "is_double 4" by (simp add: is_double_numeral)
  ultimately obtain g where "fl (of_int n / 100) = Fin g" "0 \<le> g" "g \<le> 4"
    using fl_between [of "of_int n / 100" 4] by blast
  then show ?thesis by (simp add: roundToTwo_def t(1) n_def)
qed

lemma gpa_of_range:
  assumes "\<forall>c\<in>set cs. pos_double (Course.creditHours c)"
  shows "num_le (Fin 0) (GpaResult.gpa (gpa_of cs)) \<and> num_le (GpaResult.gpa (gpa_of cs)) (Fin 4) \<and>
         num_le (Fin 0) (GpaResult.totalCreditHours (gpa_of cs))"
proof -
  define S where "S = foldl (\<lambda>sum c. num_add sum (Course.creditHours c)) (Fin 0) cs"
  define P where "P = foldl (\<lambda>sum c. num_add sum (num_mul (Course.creditHours c)
                     (ToNumber (nullish (GRADE_POINTS_get (grade c)) (Num (Fin 0)))))) (Fin 0) cs"
  have inv: "gpa_inv S P" unfolding S_def P_def using gpa_inv_init assms by (rule gpa_inv_fold)
  have eq: "gpa_of cs =
     (if num_le S (Fin 0) \<or> \<not> Number_isFinite S
      then \<lparr>GpaResult.gpa = Fin 0, totalCreditHours = Fin 0\<rparr>
      else \<lparr>GpaResult.gpa = (if Number_isFinite (num_div P S) then roundToTwo (num_div P S) else Fin 0),
            totalCreditHours = S\<rparr>)"
    by (simp add: gpa_of_def S_def P_def Let_def)
  show ?thesis
  proof (cases "num_le S (Fin 0) \<or> \<not> Number_isFinite S")
    case True
    then show ?thesis by (simp add: eq)
  next
    case False
    then obtain s where s: "S = Fin s" "0 < s" by (cases S) auto
    have "\<exists>g. (if Number_isFinite (num_div P S) then roundToTwo (num_div P S) else Fin 0) = Fin g
            \<and> 0 \<le> g \<and> g \<le> 4"
    proof -
      from inv s(1) consider "P = NaN" | "P = PInf" | p where "P = Fin p" "0 \<le> p" "p \<le> 4 * s"
        by (auto simp: gpa_inv_def)
      then show ?thesis
      proof cases
        case 1
        then show ?thesis by (simp add: s(1))
      next
        case 2
        then show ?thesis using s(2) by (simp add: s(1) signed_inf_def)
      next
        case 3
        have "0 \<le> p / s" "p / s \<le> 4" using 3(2,3) s(2) by (simp_all add: pos_divide_le_eq)
        moreover have "is_double 4" by (simp add: is_double_numeral)
        ultimately obtain r where r: "fl (p / s) = Fin r" "0 \<le> r" "r \<le> 4"
          using fl_between [of "p / s" 4] by blast
        then show ?thesis using s(2) roundToTwo_range [OF r(2,3)] by (simp add: 3(1) s(1))
      qed
    qed
    then show ?thesis using False s by (auto simp add: eq)
  qed
qed

section \<open>The grade table\<close>

text \<open>
  C7: the grade table has exactly the nine entries A 4.0, A- 3.75, B+ 3.5, B 3.0, C+ 2.5,
  C 2.0, D+ 1.5, D 1.0, F 0.0, with distinct letters and points that are doubles; a
  letter has points exactly when the pair is one of the nine; \<open>getGradeOptions\<close> is the
  nine letters in the table's order; \<open>getAllowedCreditHours\<close> is 1, 2, 3, 4.
\<close>

theorem grade_table:
  "GRADE_POINTS =
     [(''A'', Fin 4), (''A-'', Fin (375 / 100)), (''B+'', Fin (35 / 10)), (''B'', Fin 3),
      (''C+'', Fin (25 / 10)), (''C'', Fin 2), (''D+'', Fin (15 / 10)), (''D'', Fin 1),
      (''F'', Fin 0)] \<and>
   length GRADE_POINTS = 9 \<and>
   distinct (map fst GRADE_POINTS) \<and>
   list_all double_number (map snd GRADE_POINTS) \<and>
   (pointsFor g = Some p \<longleftrightarrow> (g, p) \<in> set GRADE_POINTS) \<and>
   getGradeOptions = [''A'', ''A-'', ''B+'', ''B'', ''C+'', ''C'', ''D+'', ''D'', ''F''] \<and>
   getGradeOptions = map fst GRADE_POINTS \<and>
   getAllowedCreditHours = [Fin 1, Fin 2, Fin 3, Fin 4] \<and>
   set getAllowedCreditHours = {Fin 1, Fin 2, Fin 3, Fin 4}"
proof -
  have d: "distinct (map fst GRADE_POINTS)" by (simp add: GRADE_POINTS_def)
  have dbl: "list_all double_number (map snd GRADE_POINTS)"
  proof -
    have "is_double (15 / 4)" by (rule is_double_intro [of _ 15 "- 2"]) simp_all
    moreover have "is_double (7 / 2)" by (rule is_double_intro [of _ 7 "- 1"]) simp_all
    moreover have "is_double (5 / 2)" by (rule is_double_intro [of _ 5 "- 1"]) simp_all
    moreover have "is_double (3 / 2)" by (rule is_double_intro [of _ 3 "- 1"]) simp_all
    moreover have "is_double 0" by (simp add: is_double_def)
    moreover have "is_double 1" using is_double_int [of 1] by simp
    ultimately show ?thesis by (simp add: GRADE_POINTS_def is_double_numeral)
  qed
  have m: "pointsFor g = Some p \<longleftrightarrow> (g, p) \<in> set GRADE_POINTS"
    unfolding pointsFor_def using d by (rule map_of_eq_Some_iff)
  show ?thesis
    using d dbl m by (simp add: GRADE_POINTS_def getGradeOptions_def getAllowedCreditHours_def)
qed

section \<open>Totality\<close>

text \<open>
  C8: for every array of courses and every array of semesters, whatever the grade
  strings and numbers of the entries (and even with \<open>null\<close> entries), both calculators
  return a result: no property read of a \<open>reduce\<close> callback throws.
\<close>

theorem calculators_total:
  "(\<exists>r. calculateGpa courses = Inr r) \<and> (\<exists>r. calculateCgpa semesters = Inr r)"
  by (simp add: calculateGpa_eq calculateCgpa_eq)

section \<open>The weighted averages\<close>

text \<open>
  Two courses of \<open>2^1023\<close> credit hours with grade A satisfy the conditions on the
  courses, their credit hours add up to \<open>+Infinity\<close>, and \<open>calculateGpa\<close> returns gpa 0
  with 0 total credit hours: neither the sum nor the rounded quotient.
\<close>

theorem gpa_overflow_counterexample:
  "valid_course \<lparr>Course.name = None, creditHours = Fin huge, grade = ''A''\<rparr> \<and>
   double_number (Fin huge) \<and>
   course_hours [\<lparr>Course.name = None, creditHours = Fin huge, grade = ''A''\<rparr>,
                 \<lparr>Course.name = None, creditHours = Fin huge, grade = ''A''\<rparr>] = PInf \<and>
   calculateGpa [Some \<lparr>Course.name = None, creditHours = Fin huge, grade = ''A''\<rparr>,
                 Some \<lparr>Course.name = None, creditHours = Fin huge, grade = ''A''\<rparr>]
     = Inr \<lparr>GpaResult.gpa = Fin 0, totalCreditHours = Fin 0\<rparr> \<and>
   calculateGpa [Some \<lparr>Course.name = None, creditHours = Fin huge, grade = ''A''\<rparr>,
                 Some \<lparr>Course.name = None, creditHours = Fin huge, grade = ''A''\<rparr>]
     \<noteq> Inr \<lparr>GpaResult.gpa =
               roundToTwo (num_div
                 (course_weighted [\<lparr>Course.name = None, creditHours = Fin huge, grade = ''A''\<rparr>,
                                   \<lparr>Course.name = None, creditHours = Fin huge, grade = ''A''\<rparr>])
                 (course_hours [\<lparr>Course.name = None, creditHours = Fin huge, grade = ''A''\<rparr>,
                                \<lparr>Course.name = None, creditHours = Fin huge, grade = ''A''\<rparr>])),
             totalCreditHours =
               course_hours [\<lparr>Course.name = None, creditHours = Fin huge, grade = ''A''\<rparr>,
                             \<lparr>Course.name = None, creditHours = Fin huge, grade = ''A''\<rparr>]\<rparr>"
  using huge_pos
  by (simp add: calculateGpa_eq eval_simps huge_double huge_overflow course_hours_def
      sum_numbers_def)

text \<open>
  C1: for every non-empty list of courses that each have finite, strictly positive credit
  hours (a double) and a grade that is a key of the grade table, and whose credit hours
  add up, in double arithmetic, to a finite number: \<open>calculateGpa\<close> returns that sum as
  \<open>totalCreditHours\<close>, and as gpa the two-decimal rounding of the sum of credit hours times
  grade points divided by the sum of credit hours when that quotient is finite, 0 when
  it is not.
\<close>

theorem gpa_weighted_average:
  assumes "cs \<noteq> []"
    and "\<forall>c\<in>set cs. valid_course c \<and> double_number (Course.creditHours c)"
    and "Number_isFinite (course_hours cs)"
  shows "calculateGpa (map Some cs) =
           Inr \<lparr>GpaResult.gpa =
                  (if Number_isFinite (num_div (course_weighted cs) (course_hours cs))
                   then roundToTwo (num_div (course_weighted cs) (course_hours cs))
                   else Fin 0),
                totalCreditHours = course_hours cs\<rparr>"
proof -
  have v: "\<forall>c\<in>set cs. valid_course c" using assms(2) by simp
  have "\<not> num_le (course_hours cs) (Fin 0)"
    using course_hours_reached [OF assms(1,2)] assms(3) by (rule reached_guard)
  then show ?thesis
    using assms(3)
    by (simp add: calculateGpa_eq kept_courses_valid [OF v] gpa_of_def fold_hours
        fold_weighted [OF v] Let_def)
qed

text \<open>Two courses of 3 credit hours with grades A and B: gpa 3.5 and 6 credit hours.\<close>

theorem gpa_weighted_average_witness:
  "valid_course \<lparr>Course.name = None, creditHours = Fin 3, grade = ''A''\<rparr> \<and>
   valid_course \<lparr>Course.name = None, creditHours = Fin 3, grade = ''B''\<rparr> \<and>
   double_number (Fin 3) \<and>
   Number_isFinite (course_hours [\<lparr>Course.name = None, creditHours = Fin 3, grade = ''A''\<rparr>,
                                  \<lparr>Course.name = None, creditHours = Fin 3, grade = ''B''\<rparr>]) \<and>
   calculateGpa [Some \<lparr>Course.name = None, creditHours = Fin 3, grade = ''A''\<rparr>,
                 Some \<lparr>Course.name = None, creditHours = Fin 3, grade = ''B''\<rparr>]
     = Inr \<lparr>GpaResult.gpa = Fin (35 / 10), totalCreditHours = Fin 6\<rparr>"
proof -
  define cs where "cs = [\<lparr>Course.name = None, creditHours = Fin 3, grade = ''A''\<rparr>,
                         \<lparr>Course.name = None, creditHours = Fin 3, grade = ''B''\<rparr>]"
  have h1: "cs \<noteq> []" by (simp add: cs_def)
  have h2: "\<forall>c\<in>set cs. valid_course c \<and> double_number (Course.creditHours c)"
    by (simp add: cs_def eval_simps)
  have hours: "course_hours cs = Fin 6"
    by (simp add: cs_def course_hours_def sum_numbers_def eval_simps)
  have h3: "Number_isFinite (course_hours cs)" by (simp add: hours)
  have weighted: "course_weighted cs = Fin 21"
    by (simp add: cs_def course_weighted_def course_points_def sum_numbers_def eval_simps)
  have "calculateGpa (map Some cs) = Inr \<lparr>GpaResult.gpa = Fin (35 / 10), totalCreditHours = Fin 6\<rparr>"
    using gpa_weighted_average [OF h1 h2 h3]
    by (simp add: hours weighted eval_simps double_7_2)
  then show ?thesis using h2 h3 by (simp add: cs_def)
qed

text \<open>
  Two terms of \<open>2^1023\<close> credit hours with gpa 3 are both valid, their credit hours add
  up to \<open>+Infinity\<close>, and \<open>calculateCgpa\<close> returns no cgpa and 0 total credit hours.
\<close>

theorem cgpa_overflow_counterexample:
  "valid_term \<lparr>SemesterSummary.name = ''Semester 1'', gpa = Fin 3, creditHours = Fin huge\<rparr> \<and>
   double_number (Fin huge) \<and>
   term_hours [\<lparr>SemesterSummary.name = ''Semester 1'', gpa = Fin 3, creditHours = Fin huge\<rparr>,
               \<lparr>SemesterSummary.name = ''Semester 1'', gpa = Fin 3, creditHours = Fin huge\<rparr>] = PInf \<and>
   calculateCgpa [Some \<lparr>SemesterSummary.name = ''Semester 1'', gpa = Fin 3, creditHours = Fin huge\<rparr>,
                  Some \<lparr>SemesterSummary.name = ''Semester 1'', gpa = Fin 3, creditHours = Fin huge\<rparr>]
     = Inr \<lparr>cgpa = None, totalCreditHours = Fin 0\<rparr>"
  using huge_pos
  by (simp add: calculateCgpa_eq eval_simps huge_double huge_overflow term_hours_def
      sum_numbers_def)

text \<open>
  C2: for every non-empty list of terms that each have a finite gpa in [0, 4] and finite,
  strictly positive credit hours (a double), and whose credit hours add up, in double
  arithmetic, to a finite number: \<open>calculateCgpa\<close> returns that sum as \<open>totalCreditHours\<close>,
  and as cgpa the two-decimal rounding of the sum of gpa times credit hours divided by
  the sum of credit hours when that quotient is finite, 0 when it is not. In particular
  the terms (3.5, 15) and (3.0, 12) give cgpa 3.28 and 27 credit hours.
\<close>

theorem cgpa_weighted_average:
  assumes "ts \<noteq> []"
    and "\<forall>s\<in>set ts. valid_term s \<and> double_number (SemesterSummary.creditHours s)"
    and "Number_isFinite (term_hours ts)"
  shows "calculateCgpa (map Some ts) =
           Inr \<lparr>cgpa =
                  Some (if Number_isFinite (num_div (term_weighted ts) (term_hours ts))
                        then roundToTwo (num_div (term_weighted ts) (term_hours ts))
                        else Fin 0),
                totalCreditHours = term_hours ts\<rparr> \<and>
         calculateCgpa
           [Some \<lparr>SemesterSummary.name = ''Semester 1'', gpa = Fin (35 / 10), creditHours = Fin 15\<rparr>,
            Some \<lparr>SemesterSummary.name = ''Semester 2'', gpa = Fin 3, creditHours = Fin 12\<rparr>]
           = Inr \<lparr>cgpa = Some (fl (328 / 100)), totalCreditHours = Fin 27\<rparr>"
proof -
  have v: "\<forall>s\<in>set ts. valid_term s" using assms(2) by simp
  have "\<not> num_le (term_hours ts) (Fin 0)"
    using term_hours_reached [OF assms(1,2)] assms(3) by (rule reached_guard)
  then have "calculateCgpa (map Some ts) =
           Inr \<lparr>cgpa =
                  Some (if Number_isFinite (num_div (term_weighted ts) (term_hours ts))
                        then roundToTwo (num_div (term_weighted ts) (term_hours ts))
                        else Fin 0),
                totalCreditHours = term_hours ts\<rparr>"
    using assms(1,3)
    by (simp add: calculateCgpa_eq kept_semesters_valid [OF v] cgpa_of_def fold_term_hours
        fold_term_weighted Let_def)
  moreover have "calculateCgpa
           [Some \<lparr>SemesterSummary.name = ''Semester 1'', gpa = Fin (35 / 10), creditHours = Fin 15\<rparr>,
            Some \<lparr>SemesterSummary.name = ''Semester 2'', gpa = Fin 3, creditHours = Fin 12\<rparr>]
           = Inr \<lparr>cgpa = Some (fl (328 / 100)), totalCreditHours = Fin 27\<rparr>"
    by (simp add: calculateCgpa_eq eval_simps double_7_2 double_105_2 double_177_2 fl_59_18
        fl_raw_100 fl_82_25)
  ultimately show ?thesis by simp
qed

text \<open>
  The terms (3.5, 15) and (3.0, 12): the sums are 27 and 88.5, and the rounded quotient
  is the double written 3.28.
\<close>

theorem cgpa_weighted_average_witness:
  "valid_term \<lparr>SemesterSummary.name = ''Semester 1'', gpa = Fin (35 / 10), creditHours = Fin 15\<rparr> \<and>
   valid_term \<lparr>SemesterSummary.name = ''Semester 2'', gpa = Fin 3, creditHours = Fin 12\<rparr> \<and>
   double_number (Fin 15) \<and> double_number (Fin 12) \<and>
   term_hours [\<lparr>SemesterSummary.name = ''Semester 1'', gpa = Fin (35 / 10), creditHours = Fin 15\<rparr>,
               \<lparr>SemesterSummary.name = ''Semester 2'', gpa = Fin 3, creditHours = Fin 12\<rparr>] = Fin 27 \<and>
   term_weighted [\<lparr>SemesterSummary.name = ''Semester 1'', gpa = Fin (35 / 10), creditHours = Fin 15\<rparr>,
                  \<lparr>SemesterSummary.name = ''Semester 2'', gpa = Fin 3, creditHours = Fin 12\<rparr>]
     = Fin (885 / 10) \<and>
   calculateCgpa
     [Some \<lparr>SemesterSummary.name = ''Semester 1'', gpa = Fin (35 / 10), creditHours = Fin 15\<rparr>,
      Some \<lparr>SemesterSummary.name = ''Semester 2'', gpa = Fin 3, creditHours = Fin 12\<rparr>]
     = Inr \<lparr>cgpa = Some (Fin (7385903388887613 / 2 ^ 51)), totalCreditHours = Fin 27\<rparr>"
proof -
  define ts where
    "ts = [\<lparr>SemesterSummary.name = ''Semester 1'', gpa = Fin (35 / 10), creditHours = Fin 15\<rparr>,
           \<lparr>SemesterSummary.name = ''Semester 2'', gpa = Fin 3, creditHours = Fin 12\<rparr>]"
  have h1: "ts \<noteq> []" by (simp add: ts_def)
  have h2: "\<forall>s\<in>set ts. valid_term s \<and> double_number (SemesterSummary.creditHours s)"
    by (simp add: ts_def eval_simps)
  have hours: "term_hours ts = Fin 27"
    by (simp add: ts_def term_hours_def sum_numbers_def eval_simps)
  have h3: "Number_isFinite (term_hours ts)" by (simp add: hours)
  have weighted: "term_weighted ts = Fin (885 / 10)"
    by (simp add: ts_def term_weighted_def sum_numbers_def eval_simps double_105_2 double_177_2)
  have "calculateCgpa (map Some ts) =
          Inr \<lparr>cgpa = Some (Fin (7385903388887613 / 2 ^ 51)), totalCreditHours = Fin 27\<rparr>"
    using cgpa_weighted_average [OF h1 h2 h3, THEN conjunct1]
    by (simp add: hours weighted eval_simps fl_59_18 fl_raw_100 fl_82_25)
  then show ?thesis using h2 hours weighted by (simp add: ts_def)
qed

section \<open>Rounding to two decimals\<close>

text \<open>
  At \<open>-0.125\<close> the product with 100 is \<open>-12.5\<close>: \<open>Math.round\<close> gives \<open>-12\<close>, halves away
  from zero give \<open>-13\<close>, and the two quotients by 100 are different doubles.
\<close>

theorem roundToTwo_counterexample:
  "roundToTwo (Fin (- (1 / 8))) \<noteq> roundToTwo_spec (Fin (- (1 / 8)))"
proof -
  have "roundToTwo (Fin (- (1 / 8))) = num_neg (fl (12 / 100))"
    using fl_minus [of "3 / 25"] by (simp add: eval_simps double_minus_25_2)
  moreover have "roundToTwo_spec (Fin (- (1 / 8))) = num_neg (fl (13 / 100))"
    using fl_minus [of "13 / 100"] by (simp add: roundToTwo_spec_def eval_simps double_minus_25_2)
  ultimately show ?thesis by (simp add: fl_3_25 fl_13_100)
qed

text \<open>
  C3: for every number \<open>x\<close> whose product with 100 (in double arithmetic) is not a
  negative number exactly halfway between two integers, \<open>roundToTwo x\<close> is that product
  rounded to an integer with halves away from zero, divided by 100. (\<open>Math.round\<close> rounds
  halves towards \<open>+Infinity\<close>.)
\<close>

theorem roundToTwo_half_away:
  assumes "\<not> negative_tie (num_mul x (Fin 100))"
  shows "roundToTwo x = roundToTwo_spec x"
  using Math_round_half_away [OF assms] by (simp add: roundToTwo_def roundToTwo_spec_def)

text \<open>At \<open>0.125\<close> the product is \<open>12.5\<close>, a positive half, and both roundings give 13.\<close>

theorem roundToTwo_half_away_witness:
  "\<not> negative_tie (num_mul (Fin (1 / 8)) (Fin 100)) \<and>
   roundToTwo (Fin (1 / 8)) = roundToTwo_spec (Fin (1 / 8)) \<and>
   roundToTwo (Fin (1 / 8)) = fl (13 / 100)"
proof -
  have h: "\<not> negative_tie (num_mul (Fin (1 / 8)) (Fin 100))"
    by (simp add: fl_double double_25_2)
  have "roundToTwo (Fin (1 / 8)) = fl (13 / 100)"
    by (simp add: eval_simps double_25_2)
  then show ?thesis using h roundToTwo_half_away [OF h] by simp
qed

section \<open>Entries outside the valid subset\<close>

text \<open>An entry that the filter of a calculator drops leaves the result as it is.\<close>

lemma dropped_course_ignored:
  assumes "\<not> validCourse e"
  shows "calculateGpa (xs @ e # ys) = calculateGpa (xs @ ys)"
  using assms by (simp add: calculateGpa_def)

lemma dropped_semester_ignored:
  assumes "\<not> validSemester e"
  shows "calculateCgpa (xs @ e # ys) = calculateCgpa (xs @ ys)"
  using assms by (simp add: calculateCgpa_def)

text \<open>A term outside the valid subset is dropped, wherever it is inserted.\<close>

lemma invalid_term_ignored:
  assumes "\<not> valid_term s"
  shows "calculateCgpa (xs @ Some s # ys) = calculateCgpa (xs @ ys)"
  using assms
  by (intro dropped_semester_ignored) (simp add: validSemester_Some del: validSemester.simps)

text \<open>
  The filter of \<open>calculateGpa\<close> keeps a course outside the valid subset exactly when its
  credit hours are finite and positive and its grade names a member of
  \<open>Object.prototype\<close>.
\<close>

lemma inherited_not_in_table:
  assumes "g \<in> set Object_prototype"
  shows "pointsFor g = None"
  using assms by (auto simp: Object_prototype_def pointsFor_def GRADE_POINTS_def)

lemma kept_outside_valid_subset:
  "validCourse (Some c) \<and> \<not> valid_course c \<longleftrightarrow>
     Number_isFinite (Course.creditHours c) \<and> num_less (Fin 0) (Course.creditHours c) \<and>
     grade c \<in> set Object_prototype"
  using inherited_not_in_table [of "grade c"]
  by (auto simp: valid_course_def pointsFor_def GRADE_POINTS_get_def split: option.splits)

lemma invalid_course_ignored:
  assumes "\<not> valid_course c" "grade c \<notin> set Object_prototype"
  shows "calculateGpa (xs @ Some c # ys) = calculateGpa (xs @ ys)"
  using assms kept_outside_valid_subset [of c] by (intro dropped_course_ignored) blast

text \<open>
  C4: a course with 3 credit hours and the grade \<open>toString\<close> is outside the valid subset
  (the grade is not a key of the table), yet inserting it after a course of 3 credit
  hours with grade A changes the result from gpa 4 with 3 credit hours to gpa 0 with 6
  credit hours: the inherited member passes the test against \<open>undefined\<close>, the course
  is counted in the denominator and its points are NaN.
\<close>

theorem gpa_inherited_grade_inserted:
  "\<not> valid_course \<lparr>Course.name = None, creditHours = Fin 3, grade = ''toString''\<rparr> \<and>
   calculateGpa [Some \<lparr>Course.name = None, creditHours = Fin 3, grade = ''A''\<rparr>]
     = Inr \<lparr>GpaResult.gpa = Fin 4, totalCreditHours = Fin 3\<rparr> \<and>
   calculateGpa [Some \<lparr>Course.name = None, creditHours = Fin 3, grade = ''A''\<rparr>,
                 Some \<lparr>Course.name = None, creditHours = Fin 3, grade = ''toString''\<rparr>]
     = Inr \<lparr>GpaResult.gpa = Fin 0, totalCreditHours = Fin 6\<rparr>"
  by (simp add: calculateGpa_eq eval_simps)

section \<open>No valid entry\<close>

text \<open>
  C5: for every list of terms whose valid subset is empty, \<open>calculateCgpa\<close> returns no
  cgpa (\<open>null\<close>) and 0 total credit hours.
\<close>

theorem cgpa_no_valid_term:
  assumes "valid_terms semesters = []"
  shows "calculateCgpa semesters = Inr \<lparr>cgpa = None, totalCreditHours = Fin 0\<rparr>"
  using assms by (simp add: calculateCgpa_eq kept_semesters_eq cgpa_of_def)

text \<open>The list whose only term has gpa 5, and the empty list.\<close>

theorem cgpa_no_valid_term_witness:
  "valid_terms [Some \<lparr>SemesterSummary.name = ''Semester 1'', gpa = Fin 5, creditHours = Fin 15\<rparr>] = []
   \<and> calculateCgpa [Some \<lparr>SemesterSummary.name = ''Semester 1'', gpa = Fin 5, creditHours = Fin 15\<rparr>]
       = Inr \<lparr>cgpa = None, totalCreditHours = Fin 0\<rparr>
   \<and> valid_terms [] = []
   \<and> calculateCgpa [] = Inr \<lparr>cgpa = None, totalCreditHours = Fin 0\<rparr>"
proof -
  have h1: "valid_terms [Some \<lparr>SemesterSummary.name = ''Semester 1'', gpa = Fin 5, creditHours = Fin 15\<rparr>] = []"
    by (simp add: valid_terms_def valid_term_def List.map_filter_simps)
  have h2: "valid_terms [] = []"
    by (simp add: valid_terms_def List.map_filter_simps)
  show ?thesis
    using cgpa_no_valid_term [OF h1] cgpa_no_valid_term [OF h2] h1 h2 by simp
qed

text \<open>
  When the filter of \<open>calculateGpa\<close> keeps no course, the result is gpa 0 with 0 credit
  hours; so it is when the valid subset is empty and no grade names an inherited member.
\<close>

lemma gpa_nothing_kept:
  assumes "kept_courses es = []"
  shows "calculateGpa es = Inr \<lparr>GpaResult.gpa = Fin 0, totalCreditHours = Fin 0\<rparr>"
  using assms by (simp add: calculateGpa_eq gpa_of_def Let_def)

lemma gpa_no_valid_course:
  assumes "valid_courses es = []"
    and "\<forall>c\<in>set (List.map_filter id es). grade c \<notin> set Object_prototype"
  shows "calculateGpa es = Inr \<lparr>GpaResult.gpa = Fin 0, totalCreditHours = Fin 0\<rparr>"
proof -
  have "filter (\<lambda>c. validCourse (Some c)) (List.map_filter id es)
        = filter valid_course (List.map_filter id es)"
    using assms(2) kept_outside_valid_subset valid_course_kept
    by (intro filter_cong) (auto simp del: validCourse.simps)
  then have "kept_courses es = []"
    using assms(1) by (simp add: kept_courses_def valid_courses_def)
  then show ?thesis by (rule gpa_nothing_kept)
qed

text \<open>
  C6: the list whose only course has 3 credit hours and the grade \<open>toString\<close> has an
  empty valid subset, and \<open>calculateGpa\<close> returns gpa 0 with 3 total credit hours, not 0.
\<close>

theorem gpa_inherited_grade_only:
  "valid_courses [Some \<lparr>Course.name = None, creditHours = Fin 3, grade = ''toString''\<rparr>] = [] \<and>
   calculateGpa [Some \<lparr>Course.name = None, creditHours = Fin 3, grade = ''toString''\<rparr>]
     = Inr \<lparr>GpaResult.gpa = Fin 0, totalCreditHours = Fin 3\<rparr>"
  by (simp add: calculateGpa_eq eval_simps)

section \<open>The sentinel of the cumulative average\<close>

text \<open>
  Two valid terms of \<open>2^1023\<close> credit hours: the valid subset is not empty, the sum of
  the credit hours is \<open>+Infinity\<close>, and the second guard returns the sentinel.
\<close>

theorem cgpa_sentinel_counterexample:
  "valid_terms [Some \<lparr>SemesterSummary.name = ''Semester 1'', gpa = Fin 4, creditHours = Fin huge\<rparr>,
                Some \<lparr>SemesterSummary.name = ''Semester 2'', gpa = Fin 4, creditHours = Fin huge\<rparr>]
     \<noteq> [] \<and>
   double_number (Fin huge) \<and>
   calculateCgpa [Some \<lparr>SemesterSummary.name = ''Semester 1'', gpa = Fin 4, creditHours = Fin huge\<rparr>,
                  Some \<lparr>SemesterSummary.name = ''Semester 2'', gpa = Fin 4, creditHours = Fin huge\<rparr>]
     = Inr \<lparr>cgpa = None, totalCreditHours = Fin 0\<rparr>"
  using huge_pos
  by (simp add: calculateCgpa_eq eval_simps huge_double huge_overflow)

text \<open>
  C10: for every list of terms whose credit hours are doubles, \<open>calculateCgpa\<close> returns
  the sentinel if and only if the valid subset is empty or the credit hours of the valid
  subset add up, in double arithmetic, to \<open>+Infinity\<close>; the sum of a non-empty valid
  subset is never \<open>\<le> 0\<close>, so that half of the second guard is unreachable; and whenever
  the result is a number, \<open>totalCreditHours\<close> is finite and strictly positive.
\<close>

theorem cgpa_sentinel:
  assumes "\<forall>s\<in>set (valid_terms es). double_number (SemesterSummary.creditHours s)"
  shows "\<exists>r. calculateCgpa es = Inr r \<and>
           (cgpa r = None \<longleftrightarrow> valid_terms es = [] \<or> term_hours (valid_terms es) = PInf) \<and>
           (valid_terms es \<noteq> [] \<longrightarrow> \<not> num_le (term_hours (valid_terms es)) (Fin 0)) \<and>
           (cgpa r \<noteq> None \<longrightarrow>
              Number_isFinite (CgpaResult.totalCreditHours r) \<and>
              num_less (Fin 0) (CgpaResult.totalCreditHours r))"
proof (cases "valid_terms es = []")
  case True
  then show ?thesis by (simp add: calculateCgpa_eq kept_semesters_eq cgpa_of_def)
next
  case False
  have "\<forall>s\<in>set (valid_terms es). valid_term s" by (simp add: valid_terms_def)
  with assms have "reached (term_hours (valid_terms es))"
    using False by (intro term_hours_reached) simp_all
  then consider "term_hours (valid_terms es) = PInf"
    | a where "term_hours (valid_terms es) = Fin a" "0 < a"
    by (auto simp: reached_def)
  then show ?thesis
  proof cases
    case 1
    then show ?thesis using False
      by (simp add: calculateCgpa_eq kept_semesters_eq cgpa_of_def fold_term_hours)
  next
    case 2
    then show ?thesis using False
      by (simp add: calculateCgpa_eq kept_semesters_eq cgpa_of_def fold_term_hours Let_def)
  qed
qed

text \<open>A term with gpa 5 beside a term with gpa 3.5 and 15 credit hours.\<close>

theorem cgpa_sentinel_witness:
  "double_number (Fin 15) \<and>
   valid_terms [Some \<lparr>SemesterSummary.name = ''Semester 1'', gpa = Fin 5, creditHours = Fin 15\<rparr>,
                Some \<lparr>SemesterSummary.name = ''Semester 2'', gpa = Fin (35 / 10), creditHours = Fin 15\<rparr>]
     = [\<lparr>SemesterSummary.name = ''Semester 2'', gpa = Fin (35 / 10), creditHours = Fin 15\<rparr>] \<and>
   \<not> num_le (term_hours (valid_terms
        [Some \<lparr>SemesterSummary.name = ''Semester 1'', gpa = Fin 5, creditHours = Fin 15\<rparr>,
         Some \<lparr>SemesterSummary.name = ''Semester 2'', gpa = Fin (35 / 10), creditHours = Fin 15\<rparr>]))
      (Fin 0) \<and>
   (\<exists>r. calculateCgpa
          [Some \<lparr>SemesterSummary.name = ''Semester 1'', gpa = Fin 5, creditHours = Fin 15\<rparr>,
           Some \<lparr>SemesterSummary.name = ''Semester 2'', gpa = Fin (35 / 10), creditHours = Fin 15\<rparr>]
          = Inr r \<and>
        cgpa r \<noteq> None \<and>
        Number_isFinite (CgpaResult.totalCreditHours r) \<and>
        num_less (Fin 0) (CgpaResult.totalCreditHours r))"
proof -
  define es where
    "es = [Some \<lparr>SemesterSummary.name = ''Semester 1'', gpa = Fin 5, creditHours = Fin 15\<rparr>,
           Some \<lparr>SemesterSummary.name = ''Semester 2'', gpa = Fin (35 / 10), creditHours = Fin 15\<rparr>]"
  have v: "valid_terms es
           = [\<lparr>SemesterSummary.name = ''Semester 2'', gpa = Fin (35 / 10), creditHours = Fin 15\<rparr>]"
    by (simp add: es_def eval_simps)
  have h: "\<forall>s\<in>set (valid_terms es). double_number (SemesterSummary.creditHours s)"
    by (simp add: v is_double_numeral)
  have hours: "term_hours (valid_terms es) = Fin 15"
    unfolding v by (simp add: term_hours_def sum_numbers_def fl_double is_double_numeral)
  obtain r where rr: "calculateCgpa es = Inr r \<and>
      (cgpa r = None \<longleftrightarrow> valid_terms es = [] \<or> term_hours (valid_terms es) = PInf) \<and>
      (valid_terms es \<noteq> [] \<longrightarrow> \<not> num_le (term_hours (valid_terms es)) (Fin 0)) \<and>
      (cgpa r \<noteq> None \<longrightarrow>
         Number_isFinite (CgpaResult.totalCreditHours r) \<and>
         num_less (Fin 0) (CgpaResult.totalCreditHours r))"
    using cgpa_sentinel [OF h] by (rule exE)
  have r1: "calculateCgpa es = Inr r"
    using rr by (rule conjunct1)
  have r2: "cgpa r = None \<longleftrightarrow> valid_terms es = [] \<or> term_hours (valid_terms es) = PInf"
    using rr by (rule conjunct2 [THEN conjunct1])
  have r3: "valid_terms es \<noteq> [] \<longrightarrow> \<not> num_le (term_hours (valid_terms es)) (Fin 0)"
    using rr by (rule conjunct2 [THEN conjunct2, THEN conjunct1])
  have r4: "cgpa r \<noteq> None \<longrightarrow> Number_isFinite (CgpaResult.totalCreditHours r) \<and>
       num_less (Fin 0) (CgpaResult.totalCreditHours r)"
    using rr by (rule conjunct2 [THEN conjunct2, THEN conjunct2])
  have ne: "cgpa r \<noteq> None" using r2 hours by (simp add: v)
  then have "Number_isFinite (CgpaResult.totalCreditHours r) \<and>
       num_less (Fin 0) (CgpaResult.totalCreditHours r)"
    using r4 by (rule rev_mp)
  then have "\<exists>r. calculateCgpa es = Inr r \<and> cgpa r \<noteq> None \<and>
       Number_isFinite (CgpaResult.totalCreditHours r) \<and>
       num_less (Fin 0) (CgpaResult.totalCreditHours r)"
    using r1 ne by (intro exI [of _ r] conjI) simp_all
  moreover have "\<not> num_le (term_hours (valid_terms es)) (Fin 0)" using r3 by (simp add: v)
  ultimately show ?thesis using v by (simp add: es_def is_double_numeral)
qed

section \<open>The range of the average\<close>

text \<open>
  C9: for every list of courses whose credit hours are doubles, the gpa returned by
  \<open>calculateGpa\<close> lies in the closed interval [0, 4] and the returned total credit
  hours are at least 0.
\<close>

theorem gpa_range:
  assumes "\<forall>c. Some c \<in> set es \<longrightarrow> double_number (Course.creditHours c)"
  shows "\<exists>r. calculateGpa es = Inr r \<and>
           num_le (Fin 0) (GpaResult.gpa r) \<and> num_le (GpaResult.gpa r) (Fin 4) \<and>
           num_le (Fin 0) (GpaResult.totalCreditHours r)"
proof -
  have "\<forall>c\<in>set (kept_courses es). pos_double (Course.creditHours c)"
  proof
    fix c assume "c \<in> set (kept_courses es)"
    then have "Some c \<in> set es" "validCourse (Some c)"
      by (auto simp: kept_courses_def List.map_filter_def)
    then show "pos_double (Course.creditHours c)"
      using assms by (simp add: pos_double_def)
  qed
  then show ?thesis using gpa_of_range [of "kept_courses es"] by (simp add: calculateGpa_eq)
qed

text \<open>Two courses of 3 credit hours, one with grade A and one with the grade \<open>toString\<close>.\<close>

theorem gpa_range_witness:
  "double_number (Fin 3) \<and>
   (\<exists>r. calculateGpa [Some \<lparr>Course.name = None, creditHours = Fin 3, grade = ''A''\<rparr>,
                       Some \<lparr>Course.name = None, creditHours = Fin 3, grade = ''toString''\<rparr>]
          = Inr r \<and>
        num_le (Fin 0) (GpaResult.gpa r) \<and> num_le (GpaResult.gpa r) (Fin 4) \<and>
        num_le (Fin 0) (GpaResult.totalCreditHours r))"
proof -
  have h: "\<forall>c. Some c \<in> set [Some \<lparr>Course.name = None, creditHours = Fin 3, grade = ''A''\<rparr>,
                       Some \<lparr>Course.name = None, creditHours = Fin 3, grade = ''toString''\<rparr>]
             \<longrightarrow> double_number (Course.creditHours c)"
    by (auto simp: is_double_numeral)
  show ?thesis using gpa_range [OF h] by (simp add: is_double_numeral)
qed

end
